theory Spec2Isabelle
  imports Complex_Main "HOL-Library.Word" "HOL-Library.Multiset"
    "HOL-Library.Char_ord" "HOL-Library.List_Lexorder"
begin

unbundle bit_operations_syntax

section \<open>Backoff policy\<close>

text \<open>
  The backoff generator of the repository that is present in source form is the
  \<^verbatim>\<open>Backoff\<close> class of the Android tunnel manager (the Go package \<^verbatim>\<open>pkg/restart\<close> that
  the supervisor imports is not part of the sources).  Kotlin \<^verbatim>\<open>Long\<close> values are
  integers; a \<^verbatim>\<open>Double\<close> is modelled by an exact rational, which coincides with IEEE
  arithmetic whenever operands and product are exactly representable (all integers below
  \<open>2^53\<close> times a dyadic factor such as \<open>2.0\<close>).
\<close>

datatype kt_error = IllegalArgumentException

record Backoff =
  minDelayMs :: int
  maxDelayMs :: int
  factor :: rat
  jitter :: rat
  currentDelay :: int

definition LongMin :: int where
  "LongMin = - (2 ^ 63)"

definition LongMax :: int where
  "LongMax = 2 ^ 63 - 1"

definition toLong :: "rat \<Rightarrow> int" where
  \<comment> \<open>\<^verbatim>\<open>Double.toLong()\<close>: rounds towards zero and saturates at the bounds of \<^verbatim>\<open>Long\<close>.\<close>
  "toLong q =
     (let t = (if 0 \<le> q then \<lfloor>q\<rfloor> else \<lceil>q\<rceil>)
      in if t < LongMin then LongMin else if LongMax < t then LongMax else t)"

definition NewBackoff :: "int \<Rightarrow> int \<Rightarrow> rat \<Rightarrow> rat \<Rightarrow> Backoff" where
  \<comment> \<open>the constructor: \<^verbatim>\<open>private var currentDelay = minDelayMs\<close>\<close>
  "NewBackoff mn mx f j =
     \<lparr>minDelayMs = mn, maxDelayMs = mx, factor = f, jitter = j, currentDelay = mn\<rparr>"

definition applyJitter :: "Backoff \<Rightarrow> rat \<Rightarrow> int \<Rightarrow> kt_error + int" where
  \<comment> \<open>\<open>sample\<close> stands for the value drawn by \<^verbatim>\<open>Random.nextDouble(minVal, maxVal)\<close>, which
      throws when the interval is empty.\<close>
  "applyJitter b sample v =
     (if jitter b \<le> 0 then Inr v
      else
        let delta = of_int v * jitter b;
            minVal = of_int v - delta;
            maxVal = of_int v + delta
        in if \<not> minVal < maxVal then Inl IllegalArgumentException
           else Inr (max (toLong sample) 0))"

definition nextDelayMs :: "Backoff \<Rightarrow> rat \<Rightarrow> kt_error + (int \<times> Backoff)" where
  "nextDelayMs b sample =
     (case applyJitter b sample (currentDelay b) of
        Inl e \<Rightarrow> Inl e
      | Inr delay \<Rightarrow>
          Inr (delay,
               b\<lparr>currentDelay :=
                    min (maxDelayMs b) (toLong (of_int (currentDelay b) * factor b))\<rparr>))"

definition reset :: "Backoff \<Rightarrow> Backoff" where
  "reset b = b\<lparr>currentDelay := minDelayMs b\<rparr>"

fun nextDelays :: "Backoff \<Rightarrow> rat list \<Rightarrow> kt_error + (int list \<times> Backoff)" where
  \<comment> \<open>successive calls of \<^verbatim>\<open>nextDelayMs\<close>, one per random sample; the delays in call order\<close>
  "nextDelays b [] = Inr ([], b)"
| "nextDelays b (s # ss) =
     (case nextDelayMs b s of
        Inl e \<Rightarrow> Inl e
      | Inr (d, b') \<Rightarrow>
          (case nextDelays b' ss of
             Inl e \<Rightarrow> Inl e
           | Inr (ds, b'') \<Rightarrow> Inr (d # ds, b'')))"

section \<open>State machine\<close>

datatype State = StateStopped | StateConnecting | StateConnected

datatype error =
    InvalidTransition State State
  | BuildError string
  | PipeError string
  | StartError string

definition Transition :: "State \<Rightarrow> State \<Rightarrow> error + State" where
  \<comment> \<open>Modelled from the spec: \<^verbatim>\<open>state.StateMachine.Transition\<close> (package \<^verbatim>\<open>pkg/state\<close> is not
      among the sources).  The four legal transitions of the specification's table; every
      other request fails with an invalid-transition error and leaves the state alone.\<close>
  "Transition cur nxt =
     (if (cur = StateStopped \<and> nxt = StateConnecting)
        \<or> (cur = StateConnecting \<and> nxt = StateConnected)
        \<or> (cur = StateConnecting \<and> nxt = StateStopped)
        \<or> (cur = StateConnected \<and> nxt = StateStopped)
      then Inr nxt else Inl (InvalidTransition cur nxt))"

section \<open>Supervisor data\<close>

text \<open>
  Instants and durations are integers counting nanoseconds, as \<^verbatim>\<open>time.Duration\<close> does; the
  zero \<^verbatim>\<open>time.Time\<close> (\<^verbatim>\<open>IsZero()\<close>) is \<open>None\<close>.  A started \<^verbatim>\<open>*exec.Cmd\<close> is represented
  by its identity, a number; \<open>allocated\<close> counts the commands handed out so far and is the
  identity of the next one (distinct live objects have distinct addresses).
\<close>

type_synonym Time = int
type_synonym Duration = int

datatype Policy = PolicyAlways | PolicyOnFailure

datatype wait_result = WaitNil | ExitError int | WaitError string

datatype sig = Interrupt | SIGTERM

datatype field = S string | I int

datatype wait_outcome = Completed | TimedOut

record Snapshot =
  LastExit :: string
  LastClass :: string
  LastTrigger :: string
  LastSuccessUnix :: int

datatype action =
    Log string string "(string \<times> field) list"
  | WriteSnapshot Snapshot
  | Spawn nat
  | Signal nat sig
  | Kill nat
  | AwaitDone nat Duration wait_outcome
  | AwaitOwnWait nat Duration wait_outcome
  | ArmSuccessMark nat
  | Sleep Duration

record Runner =
  sm :: State
  cmd :: "nat option"
  waitDone :: "nat option"
  waitErr :: wait_result
  logger :: bool
  stopCh_closed :: bool
  restartCount :: int
  lastExit :: string
  policy :: Policy
  backoff :: Backoff
  errLines :: "string list"
  lastSuccess :: "Time option"
  lastClass :: string
  lastTrigger :: "Time option"
  startSuccessCount :: int
  startFailureCount :: int
  exitSuccessCount :: int
  exitFailureCount :: int
  lastTriggerReason :: string
  stateWriter :: bool
  allocated :: nat

definition Millisecond :: Duration where
  "Millisecond = 1000000"

definition Second :: Duration where
  "Second = 1000000000"

definition successGracePeriod :: Duration where
  "successGracePeriod = 2 * Second"

definition New :: "Policy \<Rightarrow> Backoff \<Rightarrow> Runner" where
  "New p b =
     \<lparr>sm = StateStopped, cmd = None, waitDone = None, waitErr = WaitNil, logger = False,
      stopCh_closed = False, restartCount = 0, lastExit = [], policy = p, backoff = b,
      errLines = [], lastSuccess = None, lastClass = [], lastTrigger = None,
      startSuccessCount = 0, startFailureCount = 0, exitSuccessCount = 0,
      exitFailureCount = 0, lastTriggerReason = [], stateWriter = False, allocated = 0\<rparr>"

definition snapshotLocked :: "Runner \<Rightarrow> Snapshot" where
  "snapshotLocked r =
     \<lparr>LastExit = lastExit r, LastClass = lastClass r, LastTrigger = lastTriggerReason r,
      LastSuccessUnix = (case lastSuccess r of None \<Rightarrow> 0 | Some t \<Rightarrow> t div Second)\<rparr>"

definition writeSnapshot :: "Runner \<Rightarrow> action list" where
  "writeSnapshot r = (if stateWriter r then [WriteSnapshot (snapshotLocked r)] else [])"

definition recordExit :: "Runner \<Rightarrow> string \<Rightarrow> Runner \<times> action list" where
  "recordExit r reason = (let r' = r\<lparr>lastExit := reason\<rparr> in (r', writeSnapshot r'))"

definition setLastClass :: "Runner \<Rightarrow> string \<Rightarrow> Runner \<times> action list" where
  "setLastClass r c = (let r' = r\<lparr>lastClass := c\<rparr> in (r', writeSnapshot r'))"

definition setLastTriggerReason :: "Runner \<Rightarrow> string \<Rightarrow> Runner \<times> action list" where
  "setLastTriggerReason r reason =
     (let r' = r\<lparr>lastTriggerReason := reason\<rparr> in (r', writeSnapshot r'))"

definition recordStartSuccess :: "Runner \<Rightarrow> Runner" where
  "recordStartSuccess r = r\<lparr>startSuccessCount := startSuccessCount r + 1\<rparr>"

definition recordStartFailure :: "Runner \<Rightarrow> Runner" where
  "recordStartFailure r = r\<lparr>startFailureCount := startFailureCount r + 1\<rparr>"

definition recordExitSuccess :: "Runner \<Rightarrow> Runner" where
  "recordExitSuccess r = r\<lparr>exitSuccessCount := exitSuccessCount r + 1\<rparr>"

definition recordExitFailure :: "Runner \<Rightarrow> Runner" where
  "recordExitFailure r = r\<lparr>exitFailureCount := exitFailureCount r + 1\<rparr>"

definition ignoreTransition :: "Runner \<Rightarrow> State \<Rightarrow> Runner" where
  \<comment> \<open>\<^verbatim>\<open>_ = r.sm.Transition(s)\<close>: the error is dropped\<close>
  "ignoreTransition r s = (case Transition (sm r) s of Inl e \<Rightarrow> r | Inr s' \<Rightarrow> r\<lparr>sm := s'\<rparr>)"

section \<open>Debounce gate and restart triggers\<close>

definition minDuration :: Duration where
  "minDuration = - (2 ^ 63)"

definition maxDuration :: Duration where
  "maxDuration = 2 ^ 63 - 1"

definition Sub :: "Time \<Rightarrow> Time \<Rightarrow> Duration" where
  \<comment> \<open>\<^verbatim>\<open>Time.Sub\<close> saturates at the bounds of \<^verbatim>\<open>Duration\<close>\<close>
  "Sub t u =
     (if t - u < minDuration then minDuration
      else if maxDuration < t - u then maxDuration else t - u)"

definition msDuration :: "int \<Rightarrow> Duration" where
  \<comment> \<open>\<^verbatim>\<open>time.Duration(debounceMs) * time.Millisecond\<close> in wrapping 64-bit arithmetic\<close>
  "msDuration ms = sint ((word_of_int ms :: 64 word) * word_of_int Millisecond)"

definition allowTrigger :: "Runner \<Rightarrow> Duration \<Rightarrow> Time \<Rightarrow> bool \<times> Runner" where
  "allowTrigger r window now =
     (if window \<le> 0 then (True, r)
      else
        (case lastTrigger r of
           None \<Rightarrow> (True, r\<lparr>lastTrigger := Some now\<rparr>)
         | Some lt \<Rightarrow>
             if Sub now lt < window then (False, r)
             else (True, r\<lparr>lastTrigger := Some now\<rparr>)))"

definition terminateProcess :: "Runner \<Rightarrow> action list" where
  "terminateProcess r = (case cmd r of None \<Rightarrow> [] | Some c \<Rightarrow> [Signal c SIGTERM])"

definition triggerRestart ::
  "Runner \<Rightarrow> bool \<Rightarrow> string \<Rightarrow> int \<Rightarrow> Time \<Rightarrow> Runner \<times> action list" where
  \<comment> \<open>\<open>lg\<close>: the \<^verbatim>\<open>logger\<close> argument is not nil\<close>
  "triggerRestart r lg reason debounceMs now =
     (if sm r \<noteq> StateConnected then (r, [])
      else
        let (r1, a1) = setLastTriggerReason r reason;
            (ok, r2) = allowTrigger r1 (msDuration debounceMs) now
        in if \<not> ok then
             (r2, a1 @ (if lg then [Log ''INFO'' ''restart_skipped''
                                      [(''reason'', S reason), (''detail'', S ''debounced'')]]
                        else []))
           else
             (r2, a1 @ (if lg then [Log ''INFO'' ''restart_triggered'' [(''reason'', S reason)]]
                        else [])
                     @ terminateProcess r2))"

definition RequestRestart :: "Runner \<Rightarrow> string \<Rightarrow> int \<Rightarrow> Time \<Rightarrow> Runner \<times> action list" where
  "RequestRestart r reason debounceMs now = triggerRestart r (logger r) reason debounceMs now"

definition periodicTick :: "Runner \<Rightarrow> int \<Rightarrow> Time \<Rightarrow> Runner \<times> action list" where
  \<comment> \<open>the body of \<^verbatim>\<open>case <-ticker.C\<close> in \<^verbatim>\<open>periodicRestartLoop\<close>; the logger it is given by
      \<^verbatim>\<open>RunWithLogger\<close> is dereferenced unconditionally\<close>
  "periodicTick r debounceMs now =
     (if sm r \<noteq> StateConnected then (r, [])
      else
        let (ok, r1) = allowTrigger r (msDuration debounceMs) now
        in if \<not> ok then
             (r1, [Log ''INFO'' ''restart_skipped''
                     [(''reason'', S ''periodic''), (''detail'', S ''debounced'')]])
           else
             let (r2, a2) = setLastTriggerReason r1 ''periodic''
             in (r2, a2 @ [Log ''INFO'' ''restart_triggered'' [(''reason'', S ''periodic'')]]
                        @ terminateProcess r2))"


section \<open>Network watcher\<close>

text \<open>
  The polling fallback of \<^verbatim>\<open>pkg/monitor\<close>.  \<^verbatim>\<open>net.Interfaces()\<close> and \<^verbatim>\<open>iface.Addrs()\<close> are
  inputs: either an error message or the list they return, addresses already rendered by
  \<^verbatim>\<open>addr.String()\<close>.  \<^verbatim>\<open>net.Flags\<close> is a bit mask with \<^verbatim>\<open>FlagUp = 1 << 0\<close> and
  \<^verbatim>\<open>FlagLoopback = 1 << 2\<close>.
\<close>

record Interface =
  Name :: string
  Flags :: nat
  Addrs :: "string + string list"

definition FlagUp :: nat where
  "FlagUp = 1"

definition FlagLoopback :: nat where
  "FlagLoopback = 4"

fun collectEntries :: "Interface list \<Rightarrow> string list \<Rightarrow> string list" where
  "collectEntries [] entries = entries"
| "collectEntries (iface # rest) entries =
     (if Flags iface AND FlagUp = 0 then collectEntries rest entries
      else if Flags iface AND FlagLoopback \<noteq> 0 then collectEntries rest entries
      else
        (case Addrs iface of
           Inl err \<Rightarrow> collectEntries rest entries
         | Inr addrs \<Rightarrow>
             collectEntries rest (entries @ map (\<lambda>addr. Name iface @ ''|'' @ addr) addrs)))"

fun Join :: "string list \<Rightarrow> string \<Rightarrow> string" where
  "Join [] sep = []"
| "Join [x] sep = x"
| "Join (x # y # ys) sep = x @ sep @ Join (y # ys) sep"

definition networkFingerprint :: "string + Interface list \<Rightarrow> string + string" where
  "networkFingerprint ifs =
     (case ifs of
        Inl err \<Rightarrow> Inl err
      | Inr ifaces \<Rightarrow> Inr (Join (sort (collectEntries ifaces [])) '',''))"

definition fingerprint_pairs :: "Interface \<Rightarrow> string list" where
  \<comment> \<open>the specification's wording: the \<^verbatim>\<open><name>|<address>\<close> pairs of an interface that is up and
      not a loopback and whose address lookup succeeds; no pairs otherwise\<close>
  "fingerprint_pairs i =
     (if bit (Flags i) 0 \<and> \<not> bit (Flags i) 2 then
        (case Addrs i of Inl err \<Rightarrow> [] | Inr addrs \<Rightarrow> map (\<lambda>a. Name i @ ''|'' @ a) addrs)
      else [])"

fun pollLoop :: "string \<Rightarrow> (string + Interface list) list \<Rightarrow> (action list \<times> string list) list" where
  \<comment> \<open>the ticks of \<^verbatim>\<open>networkWatcher\<close> before cancellation; per tick, what is logged and the reasons
      handed to \<^verbatim>\<open>onEvent\<close>\<close>
  "pollLoop prev [] = []"
| "pollLoop prev (snap # rest) =
     (case networkFingerprint snap of
        Inl err \<Rightarrow>
          ([Log ''ERROR'' ''message'' [(''msg'', S (''network fingerprint failed: '' @ err))]], [])
            # pollLoop prev rest
      | Inr nxt \<Rightarrow>
          if nxt \<noteq> prev then
            ([Log ''INFO'' ''message'' [(''msg'', S ''network change detected'')]],
             [''network change'']) # pollLoop nxt rest
          else ([], []) # pollLoop prev rest)"

fun prevAfter :: "string \<Rightarrow> (string + Interface list) list \<Rightarrow> string" where
  \<comment> \<open>the watcher's variable \<^verbatim>\<open>prev\<close> after the given ticks\<close>
  "prevAfter prev [] = prev"
| "prevAfter prev (snap # rest) =
     (case networkFingerprint snap of
        Inl err \<Rightarrow> prevAfter prev rest
      | Inr nxt \<Rightarrow> prevAfter nxt rest)"

definition networkWatcher ::
  "Duration \<Rightarrow> string + Interface list \<Rightarrow> (string + Interface list) list
     \<Rightarrow> (action list \<times> string list) list" where
  "networkWatcher interval first ticks =
     (if interval \<le> 0 then []
      else pollLoop (case networkFingerprint first of Inl err \<Rightarrow> [] | Inr f \<Rightarrow> f) ticks)"

text \<open>The interfaces of the specification's scenario S2 (flags: up 1, broadcast 2, loopback 4,
  multicast 16).\<close>

definition eth0 :: Interface where
  "eth0 = \<lparr>Name = ''eth0'', Flags = 1 + 2 + 16, Addrs = Inr [''10.0.0.2/24'']\<rparr>"

definition lo :: Interface where
  "lo = \<lparr>Name = ''lo'', Flags = 1 + 4, Addrs = Inr [''127.0.0.1/8'']\<rparr>"

definition en1_down :: Interface where
  "en1_down = \<lparr>Name = ''en1'', Flags = 2 + 16, Addrs = Inr [''192.168.1.2/24'']\<rparr>"

definition en1_up :: Interface where
  "en1_up = \<lparr>Name = ''en1'', Flags = 1 + 2 + 16, Addrs = Inr [''192.168.1.2/24'']\<rparr>"

section \<open>Spawning and stopping the child\<close>

text \<open>
  What the child does when it is asked to go is an input: whether the completion event of
  its wait task fires before the 3 s timer, and before the 1 s timer that follows the kill.
  A spawn attempt has as inputs the failures of \<^verbatim>\<open>build\<close>, of the two pipes and of
  \<^verbatim>\<open>cmd.Start\<close>, and whether another goroutine (the \<^verbatim>\<open>Stop\<close> started by \<^verbatim>\<open>RequestStop\<close>) moves
  the state machine to \<open>Stopped\<close> after the child is published and before \<^verbatim>\<open>Start\<close> asks for
  \<open>Connected\<close>; this is the only way that transition can be rejected.
  A command is stored in the runner only after \<^verbatim>\<open>cmd.Start()\<close> has succeeded, so its
  \<^verbatim>\<open>Process\<close> is never nil.
  The repository holds two copies of the supervisor: \<^verbatim>\<open>apps/rpa/internal/supervisor\<close>
  (\<open>Start\<close>, \<open>Stop\<close>), whose wait task signals a per-spawn completion event, and the older
  \<^verbatim>\<open>internal/supervisor\<close> (\<open>Start_legacy\<close>, \<open>Stop_legacy\<close>), whose loop and \<^verbatim>\<open>Stop\<close> each call
  \<^verbatim>\<open>cmd.Wait()\<close>.  The debounce gate, the trigger paths, the restart decision, the backoff
  sleep and the success-grace task are the same text in both; the loop below is that of the
  newer copy.
\<close>

record reap_env =
  done_in_3s :: bool
  done_in_1s_after_kill :: bool

record spawn_env =
  build_err :: "string option"
  stdout_err :: "string option"
  stderr_err :: "string option"
  start_err :: "string option"
  concurrent_stop :: bool
  reaping :: reap_env

definition awaitReap :: "nat \<Rightarrow> reap_env \<Rightarrow> action list" where
  \<comment> \<open>the nested \<^verbatim>\<open>select\<close> on the completion event that \<^verbatim>\<open>Start\<close> and \<^verbatim>\<open>Stop\<close> both contain:
      3 s, then \<^verbatim>\<open>Kill\<close> and 1 s more\<close>
  "awaitReap c env =
     (if done_in_3s env then [AwaitDone c (3 * Second) Completed]
      else [AwaitDone c (3 * Second) TimedOut, Kill c,
            AwaitDone c (1 * Second) (if done_in_1s_after_kill env then Completed else TimedOut)])"

definition Stop :: "Runner \<Rightarrow> reap_env \<Rightarrow> Runner \<times> action list \<times> error option" where
  "Stop r env =
     (let acts =
        (case cmd r of
           None \<Rightarrow> []
         | Some c \<Rightarrow>
             Signal c Interrupt #
               (case waitDone r of None \<Rightarrow> [] | Some w \<Rightarrow> awaitReap w env))
      in case Transition (sm r) StateStopped of
           Inl e \<Rightarrow> (r, acts, Some e)
         | Inr s \<Rightarrow> (r\<lparr>sm := s\<rparr>, acts, None))"

definition Stop_legacy :: "Runner \<Rightarrow> reap_env \<Rightarrow> Runner \<times> action list \<times> error option" where
  \<comment> \<open>waits through a second \<^verbatim>\<open>cmd.Wait()\<close> of its own, and not at all after the kill\<close>
  "Stop_legacy r env =
     (let acts =
        (case cmd r of
           None \<Rightarrow> []
         | Some c \<Rightarrow>
             Signal c Interrupt #
               (if done_in_3s env then [AwaitOwnWait c (3 * Second) Completed]
                else [AwaitOwnWait c (3 * Second) TimedOut, Kill c]))
      in case Transition (sm r) StateStopped of
           Inl e \<Rightarrow> (r, acts, Some e)
         | Inr s \<Rightarrow> (r\<lparr>sm := s\<rparr>, acts, None))"

definition startFailed :: "Runner \<Rightarrow> error \<Rightarrow> Runner \<times> action list \<times> error option" where
  \<comment> \<open>\<^verbatim>\<open>_ = r.sm.Transition(state.StateStopped); r.recordStartFailure(); return err\<close>\<close>
  "startFailed r e = (recordStartFailure (ignoreTransition r StateStopped), [], Some e)"

definition spawnError :: "spawn_env \<Rightarrow> error option" where
  \<comment> \<open>the first failure of \<^verbatim>\<open>build()\<close>, \<^verbatim>\<open>StdoutPipe\<close>, \<^verbatim>\<open>StderrPipe\<close>, \<^verbatim>\<open>cmd.Start()\<close>, in this order\<close>
  "spawnError env =
     (case build_err env of
        Some m \<Rightarrow> Some (BuildError m)
      | None \<Rightarrow>
          (case stdout_err env of
             Some m \<Rightarrow> Some (PipeError m)
           | None \<Rightarrow>
               (case stderr_err env of
                  Some m \<Rightarrow> Some (PipeError m)
                | None \<Rightarrow>
                    (case start_err env of
                       Some m \<Rightarrow> Some (StartError m)
                     | None \<Rightarrow> None))))"

definition Start :: "Runner \<Rightarrow> spawn_env \<Rightarrow> Runner \<times> action list \<times> error option" where
  "Start r env =
     (case Transition (sm r) StateConnecting of
        Inl e \<Rightarrow> (r, [], Some e)
      | Inr s \<Rightarrow>
          (case spawnError env of
             Some e \<Rightarrow> startFailed (r\<lparr>sm := s\<rparr>) e
           | None \<Rightarrow>
               let c = allocated r;
                   r2 = r\<lparr>sm := s, cmd := Some c, waitDone := Some c, waitErr := WaitNil,
                          errLines := [], allocated := Suc c\<rparr>;
                   r3 = (if concurrent_stop env then ignoreTransition r2 StateStopped else r2)
               in case Transition (sm r3) StateConnected of
                    Inl e \<Rightarrow>
                      ((if cmd r3 = Some c
                        then r3\<lparr>cmd := None, waitDone := None, waitErr := WaitNil\<rparr> else r3),
                       Spawn c # terminateProcess r3 @ awaitReap c (reaping env),
                       Some e)
                  | Inr s' \<Rightarrow>
                      (recordStartSuccess (r3\<lparr>sm := s'\<rparr>), [Spawn c, ArmSuccessMark c], None)))"

definition Start_legacy :: "Runner \<Rightarrow> spawn_env \<Rightarrow> Runner \<times> action list \<times> error option" where
  \<comment> \<open>returns the rejection without touching the child\<close>
  "Start_legacy r env =
     (case Transition (sm r) StateConnecting of
        Inl e \<Rightarrow> (r, [], Some e)
      | Inr s \<Rightarrow>
          (case spawnError env of
             Some e \<Rightarrow> startFailed (r\<lparr>sm := s\<rparr>) e
           | None \<Rightarrow>
               let c = allocated r;
                   r2 = r\<lparr>sm := s, cmd := Some c, errLines := [], allocated := Suc c\<rparr>;
                   r3 = (if concurrent_stop env then ignoreTransition r2 StateStopped else r2)
               in case Transition (sm r3) StateConnected of
                    Inl e \<Rightarrow> (r3, [Spawn c], Some e)
                  | Inr s' \<Rightarrow>
                      (recordStartSuccess (r3\<lparr>sm := s'\<rparr>), [Spawn c, ArmSuccessMark c], None)))"

section \<open>Exit classification\<close>

fun toLower :: "char \<Rightarrow> char" where
  "toLower (Char b0 b1 b2 b3 b4 b5 b6 b7) =
     (if CHR ''A'' \<le> Char b0 b1 b2 b3 b4 b5 b6 b7 \<and> Char b0 b1 b2 b3 b4 b5 b6 b7 \<le> CHR ''Z''
      then Char b0 b1 b2 b3 b4 True b6 b7 else Char b0 b1 b2 b3 b4 b5 b6 b7)"

fun hasPrefix :: "string \<Rightarrow> string \<Rightarrow> bool" where
  "hasPrefix s [] = True"
| "hasPrefix [] (p # ps) = False"
| "hasPrefix (c # cs) (p # ps) = (c = p \<and> hasPrefix cs ps)"

fun Contains :: "string \<Rightarrow> string \<Rightarrow> bool" where
  "Contains [] sub = (sub = [])"
| "Contains (c # cs) sub = (hasPrefix (c # cs) sub \<or> Contains cs sub)"

definition anyLine :: "string list \<Rightarrow> string list \<Rightarrow> bool" where
  \<comment> \<open>some line contains, ignoring case, one of the patterns\<close>
  "anyLine ls pats = list_ex (\<lambda>l. list_ex (Contains (map toLower l)) pats) ls"

definition ClassifyExit_spec :: "string list \<Rightarrow> int \<Rightarrow> wait_result \<Rightarrow> string" where
  \<comment> \<open>Modelled from the spec: \<^verbatim>\<open>sshutil.ClassifyExit\<close> (package \<^verbatim>\<open>pkg/sshutil\<close> is not among the
      sources), the ordered rules of section 4.2 of the specification.\<close>
  "ClassifyExit_spec ls exitCode err =
     (if err = WaitNil \<and> exitCode = 0 then ''clean''
      else if anyLine ls [''permission denied'', ''auth''] then ''auth''
      else if anyLine ls [''host key'', ''known_hosts''] then ''hostkey''
      else if anyLine ls [''name or service not known'', ''could not resolve''] then ''dns''
      else if anyLine ls [''connection refused''] then ''refused''
      else if anyLine ls [''timed out''] then ''timeout''
      else if anyLine ls [''network is unreachable'', ''no route to host''] then ''network''
      else ''unknown'')"

section \<open>Supervisor loop\<close>

text \<open>
  The helpers of packages that are not among the sources are parameters of the loop: the
  exit classifier, the exit formatter, the text of an error and the name of a policy.
  The driver's inputs per iteration are whether the stop latch is seen closed at the top
  of the loop or during the backoff sleep, how the spawn goes, what the wait task reports,
  the child's stderr lines and the backoff's random sample.  The loop runs until it returns;
  a script that ends earlier leaves it \<open>StillRunning\<close>.  Event sources and the TCP probe run
  beside the driver and do not appear here.
\<close>

record externals =
  ClassifyExit :: "string list \<Rightarrow> int \<Rightarrow> wait_result \<Rightarrow> string"
  FormatExit :: "int \<Rightarrow> wait_result \<Rightarrow> string"
  ErrorText :: "error \<Rightarrow> string"
  PolicyName :: "Policy \<Rightarrow> string"

record Options =
  Kind :: string
  Summary :: string
  BuildInfo :: "(string \<times> field) list"

record iter_env =
  stop_seen :: bool
  spawn :: spawn_env
  exit_err :: wait_result
  stderr_lines :: "string list"
  jitter_sample :: rat
  stop_in_backoff :: bool
  stop_reaping :: reap_env

datatype outcome = Continue | Return "error option"

datatype run_result = Returned "error option" | StillRunning

definition lastLines :: "nat \<Rightarrow> string list \<Rightarrow> string list" where
  \<comment> \<open>Modelled from the spec: \<^verbatim>\<open>sshutil.LineBuffer\<close>, the ring of the last \<open>n\<close> lines\<close>
  "lastLines n ls = drop (length ls - n) ls"

definition Next :: "Backoff \<Rightarrow> rat \<Rightarrow> Duration \<times> Backoff" where
  \<comment> \<open>Modelled from the spec: \<^verbatim>\<open>restart.Backoff.Next\<close> (package \<^verbatim>\<open>pkg/restart\<close> is not among the
      sources): the stored delay, jittered and floored at 0, is returned and the stored delay
      is multiplied by the factor and clamped.\<close>
  "Next b sample =
     ((if jitter b \<le> 0 then currentDelay b else max (toLong sample) 0) * Millisecond,
      b\<lparr>currentDelay := min (maxDelayMs b) (toLong (of_int (currentDelay b) * factor b))\<rparr>)"

definition stderrSummary :: "string list \<Rightarrow> string" where
  "stderrSummary ls =
     (if ls = [] then []
      else let summary = Join (drop (length ls - 2) ls) '' | ''
           in if length summary > 200 then take 200 summary else summary)"

definition shouldRestart :: "Runner \<Rightarrow> int \<Rightarrow> wait_result \<Rightarrow> string \<Rightarrow> bool" where
  "shouldRestart r exitCode err class =
     (if class = ''auth'' \<or> class = ''hostkey'' then False
      else
        (case policy r of
           PolicyOnFailure \<Rightarrow> err \<noteq> WaitNil \<or> exitCode \<noteq> 0
         | PolicyAlways \<Rightarrow> True))"

definition sleepWithBackoff :: "Runner \<Rightarrow> iter_env \<Rightarrow> Runner \<times> action list \<times> error option" where
  "sleepWithBackoff r env =
     (let (delay, b') = Next (backoff r) (jitter_sample env);
          r1 = r\<lparr>backoff := b'\<rparr>
      in if delay \<le> 0 then (r1, [], None)
         else
           let scheduled = Log ''INFO'' ''restart_scheduled'' [(''delay_ms'', I (delay div Millisecond))];
               r2 = r1\<lparr>stopCh_closed := stopCh_closed r1 \<or> stop_in_backoff env\<rparr>
           in if stopCh_closed r2 then
                let (r3, a3, e) = Stop r2 (stop_reaping env)
                in (r3, scheduled # Log ''INFO'' ''stop_during_backoff'' [] # a3, e)
              else (r2, [scheduled, Sleep delay], None))"

definition afterBackoff :: "error option \<Rightarrow> outcome" where
  \<comment> \<open>\<^verbatim>\<open>if err := r.sleepWithBackoff(logger); err != nil { return err }\<close>, else the next round\<close>
  "afterBackoff e = (case e of Some x \<Rightarrow> Return (Some x) | None \<Rightarrow> Continue)"

definition exitCodeOf :: "wait_result \<Rightarrow> int" where
  "exitCodeOf err = (case err of WaitNil \<Rightarrow> 0 | ExitError code \<Rightarrow> code | WaitError m \<Rightarrow> - 1)"

definition handleExit :: "externals \<Rightarrow> Runner \<Rightarrow> iter_env \<Rightarrow> Runner \<times> action list \<times> outcome" where
  \<comment> \<open>the body of the loop from the completion of the wait to the restart decision\<close>
  "handleExit ext r env =
     (let err = exit_err env;
          r1 = r\<lparr>waitErr := err, errLines := lastLines 10 (stderr_lines env)\<rparr>;
          exitCode = exitCodeOf err;
          r2 = (if err \<noteq> WaitNil then recordExitFailure r1 else recordExitSuccess r1);
          class = ClassifyExit ext (errLines r2) exitCode err;
          (r3, a3) = setLastClass r2 class;
          exitMsg = (if class \<noteq> ''clean''
                     then FormatExit ext exitCode err @ '' ('' @ class @ '')''
                     else FormatExit ext exitCode err);
          (r4, a4) = recordExit r3 exitMsg;
          exited =
            (if err \<noteq> WaitNil then
               (if stderrSummary (errLines r4) \<noteq> [] then
                  Log ''ERROR'' ''ssh_exited''
                    [(''exit'', S exitMsg), (''class'', S class),
                     (''stderr'', S (stderrSummary (errLines r4)))]
                else Log ''ERROR'' ''ssh_exited'' [(''exit'', S exitMsg), (''class'', S class)])
             else Log ''INFO'' ''ssh_exited'' [(''exit'', S exitMsg), (''class'', S class)]);
          r5 = ignoreTransition r4 StateStopped;
          r6 = r5\<lparr>cmd := None, waitDone := None, waitErr := WaitNil\<rparr>
      in if \<not> shouldRestart r6 exitCode err class then
           (r6,
            a3 @ a4 @ [exited,
              Log ''INFO'' ''restart_policy_stop''
                [(''policy'', S (PolicyName ext (policy r6))), (''class'', S class)]],
            Return None)
         else if class = ''auth'' \<or> class = ''hostkey'' then
           (r6,
            a3 @ a4 @ [exited,
              Log ''ERROR'' ''restart_policy_stop''
                [(''policy'', S (PolicyName ext (policy r6))), (''class'', S class),
                 (''reason'', S ''manual intervention required'')]],
            Return None)
         else
           let r7 = (if err = WaitNil then r6\<lparr>backoff := reset (backoff r6)\<rparr> else r6);
               r8 = r7\<lparr>restartCount := restartCount r7 + 1\<rparr>;
               (r9, a9, e) = sleepWithBackoff r8 env
           in (r9, a3 @ a4 @ exited # a9, afterBackoff e))"

definition iteration ::
  "externals \<Rightarrow> Options \<Rightarrow> Runner \<Rightarrow> iter_env \<Rightarrow> Runner \<times> action list \<times> outcome" where
  "iteration ext opts r env =
     (let r0 = r\<lparr>stopCh_closed := stopCh_closed r \<or> stop_seen env\<rparr>
      in if stopCh_closed r0 then
           let (r1, a1, e) = Stop r0 (stop_reaping env)
           in (r1,
               Log ''INFO'' (if Kind opts = [] then ''stop_requested''
                             else Kind opts @ ''_stop_requested'') [] # a1,
               Return e)
         else
           (case Start r0 (spawn env) of
              (r1, a1, Some err) \<Rightarrow>
                let (r2, a2) = recordExit r1 (''start failed: '' @ ErrorText ext err);
                    (r3, a3) = setLastTriggerReason r2 ''start failed'';
                    r4 = r3\<lparr>restartCount := restartCount r3 + 1\<rparr>;
                    (r5, a5, e) = sleepWithBackoff r4 env
                in (r5,
                    a1 @ a2 @ a3 @
                      Log ''ERROR'' ''ssh_start_failed'' [(''error'', S (ErrorText ext err))] # a5,
                    afterBackoff e)
            | (r1, a1, None) \<Rightarrow>
                let started = Log ''INFO'' ''ssh_started'' [(''summary'', S (Summary opts))]
                in if cmd r1 = None \<or> waitDone r1 = None then
                     let (r2, a2) = recordExit r1 ''ssh command not started''
                     in (ignoreTransition r2 StateStopped,
                         a1 @ started # a2 @
                           [Log ''ERROR'' ''ssh_start_failed''
                              [(''error'', S ''ssh command not started'')],
                            Sleep (2 * Second)],
                         Continue)
                   else
                     let (r2, a2, out) = handleExit ext r1 env
                     in (r2, a1 @ started # a2, out)))"

fun RunLoop ::
  "externals \<Rightarrow> Options \<Rightarrow> Runner \<Rightarrow> iter_env list \<Rightarrow> Runner \<times> action list \<times> run_result" where
  "RunLoop ext opts r [] = (r, [], StillRunning)"
| "RunLoop ext opts r (env # envs) =
     (case iteration ext opts r env of
        (r', acts, Return e) \<Rightarrow> (r', acts, Returned e)
      | (r', acts, Continue) \<Rightarrow>
          (case RunLoop ext opts r' envs of
             (r'', acts', res) \<Rightarrow> (r'', acts @ acts', res)))"

definition RunWithLogger ::
  "externals \<Rightarrow> Options \<Rightarrow> Runner \<Rightarrow> iter_env list \<Rightarrow> Runner \<times> action list \<times> run_result" where
  "RunWithLogger ext opts r envs =
     (let startEvent = (if Kind opts = [] then ''start'' else Kind opts @ ''_start'');
          stopEvent = (if Kind opts = [] then ''stop'' else Kind opts @ ''_stop'');
          buildEvent = (if Kind opts = [] then ''build_info'' else Kind opts @ ''_build_info'');
          intro = Log ''INFO'' startEvent [(''summary'', S (Summary opts))] #
                  (if BuildInfo opts = [] then [] else [Log ''INFO'' buildEvent (BuildInfo opts)])
      in case RunLoop ext opts (r\<lparr>logger := True\<rparr>) envs of
           (r', acts, StillRunning) \<Rightarrow> (r', intro @ acts, StillRunning)
         | (r', acts, Returned e) \<Rightarrow>
             (r'\<lparr>logger := False\<rparr>, intro @ acts @ [Log ''INFO'' stopEvent []], Returned e))"

section \<open>Success-grace task\<close>

text \<open>
  The goroutine of \<^verbatim>\<open>scheduleSuccessMark\<close> runs beside the driver.  Its interleavings are the
  runs of a transition system: time passes, the driver starts a child, the driver moves the
  state machine to \<open>Stopped\<close> after an exit and then clears the child, \<^verbatim>\<open>Stop\<close> is called, or
  a pending mark wakes up, which \<^verbatim>\<open>time.Sleep\<close> allows no earlier than the grace period after it
  was armed.  \<open>marks\<close> lists the sleeping goroutines with the command each captured and the
  instant it was armed.  \<open>connectedSince\<close> is a history variable that no transition reads:
  the instant at which the state machine last entered \<open>Connected\<close>, or \<open>None\<close> outside
  \<open>Connected\<close>.
\<close>

datatype event =
    EvTick Duration
  | EvStart spawn_env
  | EvExitTransition
  | EvExitClear
  | EvStop reap_env
  | EvSuccessMark nat Time

record world =
  runner :: Runner
  clock :: Time
  marks :: "(nat \<times> Time) list"
  connectedSince :: "Time option"

definition successMark :: "Runner \<Rightarrow> nat \<Rightarrow> Time \<Rightarrow> Runner \<times> action list" where
  \<comment> \<open>what the goroutine does under the mutex after its sleep\<close>
  "successMark r c now =
     (if cmd r \<noteq> Some c \<or> sm r \<noteq> StateConnected then (r, [])
      else let r' = r\<lparr>lastSuccess := Some now\<rparr> in (r', writeSnapshot r'))"

definition armed :: "Time \<Rightarrow> action list \<Rightarrow> (nat \<times> Time) list" where
  \<comment> \<open>the goroutines that a call of \<^verbatim>\<open>Start\<close> has launched\<close>
  "armed now acts = concat (map (\<lambda>a. case a of ArmSuccessMark c \<Rightarrow> [(c, now)] | _ \<Rightarrow> []) acts)"

definition track :: "world \<Rightarrow> Runner \<Rightarrow> Time option" where
  "track w r' =
     (if sm r' = StateConnected
      then (if sm (runner w) = StateConnected then connectedSince w else Some (clock w))
      else None)"

fun step :: "world \<Rightarrow> event \<Rightarrow> world option" where
  "step w (EvTick d) = (if 0 \<le> d then Some (w\<lparr>clock := clock w + d\<rparr>) else None)"
| "step w (EvStart env) =
     (let (r', acts, err) = Start (runner w) env
      in Some (w\<lparr>runner := r', marks := marks w @ armed (clock w) acts,
                 connectedSince := track w r'\<rparr>))"
| "step w EvExitTransition =
     (let r' = ignoreTransition (runner w) StateStopped
      in Some (w\<lparr>runner := r', connectedSince := track w r'\<rparr>))"
| "step w EvExitClear =
     Some (w\<lparr>runner := (runner w)\<lparr>cmd := None, waitDone := None, waitErr := WaitNil\<rparr>\<rparr>)"
| "step w (EvStop env) =
     (let (r', acts, err) = Stop (runner w) env
      in Some (w\<lparr>runner := r', connectedSince := track w r'\<rparr>))"
| "step w (EvSuccessMark c a) =
     (if (c, a) \<in> set (marks w) \<and> a + successGracePeriod \<le> clock w
      then Some (w\<lparr>runner := fst (successMark (runner w) c (clock w)),
                   marks := remove1 (c, a) (marks w)\<rparr>)
      else None)"

fun run :: "world \<Rightarrow> event list \<Rightarrow> world option" where
  "run w [] = Some w"
| "run w (e # es) = (case step w e of None \<Rightarrow> None | Some w' \<Rightarrow> run w' es)"

definition init_world :: "Policy \<Rightarrow> Backoff \<Rightarrow> Time \<Rightarrow> world" where
  "init_world p b t0 = \<lparr>runner = New p b, clock = t0, marks = [], connectedSince = None\<rparr>"

section \<open>Properties of traces\<close>

definition terminal_exit :: "action \<Rightarrow> bool" where
  \<comment> \<open>the \<^verbatim>\<open>ssh_exited\<close> event of an exit classified \<^verbatim>\<open>auth\<close> or \<^verbatim>\<open>hostkey\<close>\<close>
  "terminal_exit a =
     (case a of
        Log lvl ev fs \<Rightarrow>
          ev = ''ssh_exited'' \<and>
          (map_of fs ''class'' = Some (S ''auth'') \<or> map_of fs ''class'' = Some (S ''hostkey''))
      | _ \<Rightarrow> False)"

definition is_Spawn :: "action \<Rightarrow> bool" where
  "is_Spawn a = (case a of Spawn c \<Rightarrow> True | _ \<Rightarrow> False)"

definition stops_at_terminal :: "action list \<Rightarrow> bool \<Rightarrow> bool" where
  \<comment> \<open>a trace has no terminal exit, or after its first one neither a spawn nor another
      terminal exit, and the run has returned nil\<close>
  "stops_at_terminal acts returned_nil =
     (\<not> list_ex terminal_exit acts \<or>
      (\<exists>A x B. acts = A @ x # B \<and> \<not> list_ex terminal_exit A \<and> terminal_exit x \<and>
         \<not> list_ex terminal_exit B \<and> \<not> list_ex is_Spawn B \<and> returned_nil))"


section \<open>Example supervisors\<close>

definition fresh_runner :: Runner where
  \<comment> \<open>a supervisor as \<^verbatim>\<open>New\<close> returns it\<close>
  "fresh_runner = New PolicyAlways (NewBackoff 2000 30000 2 0)"

definition connected_runner :: Runner where
  \<comment> \<open>a supervisor whose first child is running; a trigger was accepted at instant 0\<close>
  "connected_runner = fresh_runner\<lparr>sm := StateConnected, cmd := Some 0, waitDone := Some 0,
     logger := True, lastTrigger := Some 0, lastTriggerReason := ''network change'', allocated := 1\<rparr>"

definition good_spawn :: spawn_env where
  "good_spawn = \<lparr>build_err = None, stdout_err = None, stderr_err = None, start_err = None,
     concurrent_stop = False, reaping = \<lparr>done_in_3s = True, done_in_1s_after_kill = True\<rparr>\<rparr>"

definition raced_spawn :: spawn_env where
  "raced_spawn = good_spawn\<lparr>concurrent_stop := True\<rparr>"

definition spec_externals :: externals where
  \<comment> \<open>the classifier of the specification; the three texts stand in for helpers whose wording
      the sources do not give\<close>
  "spec_externals =
     \<lparr>ClassifyExit = ClassifyExit_spec,
      FormatExit = (\<lambda>code err. case err of WaitNil \<Rightarrow> ''exit 0'' | _ \<Rightarrow> ''exit error''),
      ErrorText = (\<lambda>e. case e of InvalidTransition a b \<Rightarrow> ''invalid transition''
                          | BuildError m \<Rightarrow> m | PipeError m \<Rightarrow> m | StartError m \<Rightarrow> m),
      PolicyName = (\<lambda>p. case p of PolicyAlways \<Rightarrow> ''always'' | PolicyOnFailure \<Rightarrow> ''on-failure'')\<rparr>"

definition agent_opts :: Options where
  "agent_opts = \<lparr>Kind = ''agent'', Summary = ''ubuntu@example.com:22'', BuildInfo = []\<rparr>"

definition auth_failure :: iter_env where
  "auth_failure =
     \<lparr>stop_seen = False, spawn = good_spawn, exit_err = ExitError 255,
      stderr_lines = [''Permission denied (publickey).''], jitter_sample = 0,
      stop_in_backoff = False,
      stop_reaping = \<lparr>done_in_3s = True, done_in_1s_after_kill = True\<rparr>\<rparr>"

definition network_failure :: iter_env where
  "network_failure = auth_failure\<lparr>stderr_lines := [''ssh: connect to host example.com port 22: Network is unreachable'']\<rparr>"

definition stubborn_spawn :: spawn_env where
  \<comment> \<open>a raced spawn whose child ignores SIGTERM for 3 s\<close>
  "stubborn_spawn = raced_spawn\<lparr>reaping := \<lparr>done_in_3s = False, done_in_1s_after_kill = True\<rparr>\<rparr>"

section \<open>Verification: backoff\<close>

lemma toLong_of_int: "LongMin \<le> n \<Longrightarrow> n \<le> LongMax \<Longrightarrow> toLong (of_int n) = n"
  by (simp add: toLong_def Let_def)

lemma toLong_double:
  assumes "0 \<le> n" "n \<le> 30000"
  shows "toLong (of_int n * 2) = 2 * n"
proof -
  have "of_int n * (2::rat) = of_int (2 * n)" by simp
  moreover have "LongMin \<le> 2 * n" "2 * n \<le> LongMax"
    using assms by (simp_all add: LongMin_def LongMax_def)
  ultimately show ?thesis by (simp only: toLong_of_int)
qed

lemma clamp_step: "min 30000 (2 * min 30000 (2000 * 2 ^ k)) = min (30000::int) (2000 * 2 ^ Suc k)"
  by (simp add: min_def)

lemma nextDelayMs_doubling:
  assumes "minDelayMs b = 2000" "maxDelayMs b = 30000" "factor b = 2" "jitter b = 0"
    "currentDelay b = min 30000 (2000 * 2 ^ k)"
  shows "nextDelayMs b s =
    Inr (min 30000 (2000 * 2 ^ k), b\<lparr>currentDelay := min 30000 (2000 * 2 ^ Suc k)\<rparr>)"
proof -
  have "0 \<le> min (30000::int) (2000 * 2 ^ k)" "min (30000::int) (2000 * 2 ^ k) \<le> 30000"
    by simp_all
  then have "toLong (of_int (min 30000 (2000 * 2 ^ k)) * 2) = 2 * min 30000 (2000 * 2 ^ k)"
    by (rule toLong_double)
  then show ?thesis
    using assms by (simp add: nextDelayMs_def applyJitter_def clamp_step)
qed

lemma nextDelays_doubling:
  assumes "minDelayMs b = 2000" "maxDelayMs b = 30000" "factor b = 2" "jitter b = 0"
    "currentDelay b = min 30000 (2000 * 2 ^ k)"
  shows "nextDelays b ss =
    Inr (map (\<lambda>i. min 30000 (2000 * 2 ^ (k + i))) [0..<length ss],
         b\<lparr>currentDelay := min 30000 (2000 * 2 ^ (k + length ss))\<rparr>)"
  using assms
proof (induction ss arbitrary: b k)
  case Nil
  then show ?case by simp
next
  case (Cons s ss)
  let ?b = "b\<lparr>currentDelay := min 30000 (2000 * 2 ^ Suc k)\<rparr>"
  have st: "nextDelayMs b s = Inr (min 30000 (2000 * 2 ^ k), ?b)"
    using Cons.prems by (rule nextDelayMs_doubling)
  have ih: "nextDelays ?b ss =
    Inr (map (\<lambda>i. min 30000 (2000 * 2 ^ (Suc k + i))) [0..<length ss],
         ?b\<lparr>currentDelay := min 30000 (2000 * 2 ^ (Suc k + length ss))\<rparr>)"
    using Cons.prems by (intro Cons.IH) simp_all
  have m: "map (\<lambda>i. min (30000::int) (2000 * 2 ^ (k + i))) [0..<Suc (length ss)] =
      min 30000 (2000 * 2 ^ k) # map (\<lambda>i. min 30000 (2000 * 2 ^ Suc (k + i))) [0..<length ss]"
    by (simp add: upt_rec[of 0] map_Suc_upt[symmetric] del: upt_Suc)
  from st ih show ?case by (simp add: m del: upt_Suc)
qed

lemma saturated_from_4: "min (30000::int) (2000 * 2 ^ (4 + i)) = 30000"
proof -
  have "(1::int) \<le> 2 ^ i" by simp
  then have "(30000::int) \<le> 2000 * (16 * 2 ^ i)" by linarith
  then show ?thesis by (simp add: power_add)
qed

lemma upt4: "[0..<4 + n] = [0, 1, 2, 3] @ map (\<lambda>i. 4 + i) [0..<n]"
proof -
  have "[0..<4 + n] = [0..<4] @ [4..<4 + n]"
    by (metis upt_add_eq_append zero_le)
  moreover have "[0..<4] = [0, 1, 2, 3::nat]" by (simp add: upt_rec)
  moreover have "[4..<4 + n] = map (\<lambda>i. 4 + i) [0..<n]"
    by (simp add: map_add_upt add.commute)
  ultimately show ?thesis by simp
qed

lemma trajectory_list:
  "map (\<lambda>i. min (30000::int) (2000 * 2 ^ (0 + i))) [0..<length (s1 # s2 # s3 # s4 # ss)] =
     [2000, 4000, 8000, 16000] @ replicate (length ss) 30000"
proof -
  have len: "length (s1 # s2 # s3 # s4 # ss) = 4 + length ss" by simp
  have "map (\<lambda>i. min (30000::int) (2000 * 2 ^ (4 + i))) [0..<length ss] = replicate (length ss) 30000"
    by (simp only: saturated_from_4 map_replicate_const length_upt diff_zero)
  then show ?thesis
    unfolding len upt4 by (simp add: o_def del: upt_Suc)
qed

text \<open>
  C5.  With \<open>min = 2000\<close>, \<open>max = 30000\<close>, \<open>factor = 2.0\<close> and \<open>jitter = 0\<close> the successive
  calls of the backoff return 2000, 4000, 8000, 16000 and from then on 30000 for ever,
  whatever the random source yields; after a reset (following any number of calls) the
  next call returns 2000 again.
\<close>

theorem backoff_trajectory:
  "(\<exists>b'. nextDelays (NewBackoff 2000 30000 2 0) (s1 # s2 # s3 # s4 # ss) =
          Inr ([2000, 4000, 8000, 16000] @ replicate (length ss) 30000, b'))
   \<and> nextDelays (NewBackoff 2000 30000 2 0) [s1, s2, s3, s4, s5, s6] =
          Inr ([2000, 4000, 8000, 16000, 30000, 30000],
               (NewBackoff 2000 30000 2 0)\<lparr>currentDelay := 30000\<rparr>)
   \<and> (\<exists>ds b' b''. nextDelays (NewBackoff 2000 30000 2 0) ts = Inr (ds, b')
          \<and> nextDelayMs (reset b') s = Inr (2000, b''))"
proof (intro conjI)
  let ?B = "NewBackoff 2000 30000 2 0"
  have B: "minDelayMs ?B = 2000" "maxDelayMs ?B = 30000" "factor ?B = 2" "jitter ?B = 0"
    "currentDelay ?B = min 30000 (2000 * 2 ^ 0)"
    by (simp_all add: NewBackoff_def)
  have gen: "nextDelays ?B us =
    Inr (map (\<lambda>i. min 30000 (2000 * 2 ^ (0 + i))) [0..<length us],
         ?B\<lparr>currentDelay := min 30000 (2000 * 2 ^ (0 + length us))\<rparr>)" for us
    using B by (rule nextDelays_doubling)
  show "\<exists>b'. nextDelays ?B (s1 # s2 # s3 # s4 # ss) =
          Inr ([2000, 4000, 8000, 16000] @ replicate (length ss) 30000, b')"
    unfolding gen trajectory_list by blast
  show "nextDelays ?B [s1, s2, s3, s4, s5, s6] =
          Inr ([2000, 4000, 8000, 16000, 30000, 30000], ?B\<lparr>currentDelay := 30000\<rparr>)"
    unfolding gen by (simp add: upt_rec)
  let ?b' = "?B\<lparr>currentDelay := min 30000 (2000 * 2 ^ (0 + length ts))\<rparr>"
  have R: "minDelayMs (reset ?b') = 2000" "maxDelayMs (reset ?b') = 30000"
    "factor (reset ?b') = 2" "jitter (reset ?b') = 0"
    "currentDelay (reset ?b') = min 30000 (2000 * 2 ^ 0)"
    by (simp_all add: NewBackoff_def reset_def)
  have "nextDelayMs (reset ?b') s =
      Inr (min 30000 (2000 * 2 ^ 0), (reset ?b')\<lparr>currentDelay := min 30000 (2000 * 2 ^ Suc 0)\<rparr>)"
    using R by (rule nextDelayMs_doubling)
  then have "nextDelayMs (reset ?b') s = Inr (2000, (reset ?b')\<lparr>currentDelay := 4000\<rparr>)"
    by simp
  with gen[of ts] show "\<exists>ds b' b''. nextDelays ?B ts = Inr (ds, b')
          \<and> nextDelayMs (reset b') s = Inr (2000, b'')"
    by blast
qed

text \<open>
  Without jitter the backoff that the supervisor loop is given (\<open>Next\<close>, from the
  specification) returns and stores what the Kotlin class does, in nanoseconds.
\<close>

lemma Next_matches_nextDelayMs:
  "jitter b \<le> 0 \<Longrightarrow>
   nextDelayMs b s = Inr (currentDelay b, snd (Next b s')) \<and>
   fst (Next b s') = currentDelay b * Millisecond"
  by (simp add: nextDelayMs_def applyJitter_def Next_def)

section \<open>Verification: debounce gate and triggers\<close>

lemma msDuration_2000: "msDuration 2000 = 2000 * Millisecond"
  by (simp add: msDuration_def Millisecond_def)

lemma msDuration_bounds: "minDuration \<le> msDuration ms" "msDuration ms \<le> maxDuration"
  using sint_range_size[of "(word_of_int ms :: 64 word) * word_of_int Millisecond"]
  by (simp_all add: msDuration_def minDuration_def maxDuration_def word_size)







lemma triggerRestart_accept:
  assumes "sm r = StateConnected" "fst (allowTrigger (r\<lparr>lastTriggerReason := reason\<rparr>) (msDuration d) now)"
  shows "triggerRestart r lg reason d now =
     (snd (allowTrigger (r\<lparr>lastTriggerReason := reason\<rparr>) (msDuration d) now),
      writeSnapshot (r\<lparr>lastTriggerReason := reason\<rparr>) @
      (if lg then [Log ''INFO'' ''restart_triggered'' [(''reason'', S reason)]] else []) @
      terminateProcess (snd (allowTrigger (r\<lparr>lastTriggerReason := reason\<rparr>) (msDuration d) now)))"
proof -
  obtain ok r2 where g: "allowTrigger (r\<lparr>lastTriggerReason := reason\<rparr>) (msDuration d) now = (ok, r2)"
    by (cases "allowTrigger (r\<lparr>lastTriggerReason := reason\<rparr>) (msDuration d) now")
  with assms(2) have "ok" by simp
  with assms(1) g show ?thesis
    by (simp add: triggerRestart_def setLastTriggerReason_def Let_def)
qed

lemma periodicTick_drop:
  assumes "sm r = StateConnected" "\<not> fst (allowTrigger r (msDuration d) now)"
  shows "periodicTick r d now =
     (snd (allowTrigger r (msDuration d) now),
      [Log ''INFO'' ''restart_skipped''
         [(''reason'', S ''periodic''), (''detail'', S ''debounced'')]])"
proof -
  obtain ok r1 where g: "allowTrigger r (msDuration d) now = (ok, r1)"
    by (cases "allowTrigger r (msDuration d) now")
  with assms(2) have "\<not> ok" by simp
  with assms(1) g show ?thesis
    by (simp add: periodicTick_def Let_def)
qed

lemma periodicTick_accept:
  assumes "sm r = StateConnected" "fst (allowTrigger r (msDuration d) now)"
  shows "periodicTick r d now =
     ((snd (allowTrigger r (msDuration d) now))\<lparr>lastTriggerReason := ''periodic''\<rparr>,
      writeSnapshot ((snd (allowTrigger r (msDuration d) now))\<lparr>lastTriggerReason := ''periodic''\<rparr>) @
      [Log ''INFO'' ''restart_triggered'' [(''reason'', S ''periodic'')]] @
      terminateProcess ((snd (allowTrigger r (msDuration d) now))\<lparr>lastTriggerReason := ''periodic''\<rparr>))"
proof -
  obtain ok r1 where g: "allowTrigger r (msDuration d) now = (ok, r1)"
    by (cases "allowTrigger r (msDuration d) now")
  with assms(2) have "ok" by simp
  with assms(1) g show ?thesis
    by (simp add: periodicTick_def setLastTriggerReason_def Let_def)
qed


lemma allowTrigger_keeps:
  "cmd (snd (allowTrigger r w now)) = cmd r"
  "lastTriggerReason (snd (allowTrigger r w now)) = lastTriggerReason r"
  "sm (snd (allowTrigger r w now)) = sm r"
  by (simp_all add: allowTrigger_def split: option.split)

lemma allowTrigger_rejected_unchanged:
  "\<not> fst (allowTrigger r w now) \<Longrightarrow> snd (allowTrigger r w now) = r"
proof (cases "w \<le> 0")
  case True
  then show ?thesis by (simp add: allowTrigger_def)
next
  case False
  assume a: "\<not> fst (allowTrigger r w now)"
  show ?thesis
  proof (cases "lastTrigger r")
    case None
    with False a show ?thesis by (simp add: allowTrigger_def)
  next
    case (Some lt)
    with False a have "Sub now lt < w" by (simp add: allowTrigger_def split: if_splits)
    with False Some show ?thesis by (simp add: allowTrigger_def)
  qed
qed

lemma terminateProcess_cong: "cmd r' = cmd r \<Longrightarrow> terminateProcess r' = terminateProcess r"
  by (simp add: terminateProcess_def)


lemma connected_runner_simps:
  "sm connected_runner = StateConnected" "lastTrigger connected_runner = Some 0"
  "cmd connected_runner = Some 0" "stateWriter connected_runner = False"
  "lastTriggerReason connected_runner = ''network change''"
  by (simp_all add: connected_runner_def fresh_runner_def New_def)

lemma gate_500: "\<not> fst (allowTrigger connected_runner (msDuration 2000) (500 * Millisecond))"
  by (simp add: allowTrigger_def connected_runner_simps msDuration_2000 Millisecond_def Sub_def
      minDuration_def maxDuration_def)



text \<open>
  C10.  While no trigger has ever been accepted (the gate's instant is the zero time, as in a
  new supervisor) the gate accepts, whatever the window: the trigger path logs
  \<^verbatim>\<open>restart_triggered\<close> and terminates the child, never \<^verbatim>\<open>restart_skipped\<close>.
\<close>

theorem first_trigger_accepted:
  assumes "lastTrigger r = None"
  shows "fst (allowTrigger r window now)
    \<and> (sm r = StateConnected \<longrightarrow>
         snd (triggerRestart r lg reason d now) =
           writeSnapshot (r\<lparr>lastTriggerReason := reason\<rparr>) @
           (if lg then [Log ''INFO'' ''restart_triggered'' [(''reason'', S reason)]] else []) @
           terminateProcess r
       \<and> snd (periodicTick r d now) =
           writeSnapshot (r\<lparr>lastTriggerReason := ''periodic''\<rparr>) @
           [Log ''INFO'' ''restart_triggered'' [(''reason'', S ''periodic'')]] @
           terminateProcess r)"
proof (intro conjI impI)
  have any: "fst (allowTrigger r' w now)" if "lastTrigger r' = None" for r' w
    using that by (simp add: allowTrigger_def)
  from assms show "fst (allowTrigger r window now)" by (rule any)
  assume c: "sm r = StateConnected"
  have acc: "fst (allowTrigger (r\<lparr>lastTriggerReason := reason\<rparr>) (msDuration d) now)"
    using assms by (intro any) simp
  have tp: "terminateProcess (snd (allowTrigger (r\<lparr>lastTriggerReason := reason\<rparr>) (msDuration d) now))
      = terminateProcess r"
    by (rule terminateProcess_cong) (simp add: allowTrigger_keeps)
  show "snd (triggerRestart r lg reason d now) =
           writeSnapshot (r\<lparr>lastTriggerReason := reason\<rparr>) @
           (if lg then [Log ''INFO'' ''restart_triggered'' [(''reason'', S reason)]] else []) @
           terminateProcess r"
    unfolding triggerRestart_accept[OF c acc] tp by simp
  have acc': "fst (allowTrigger r (msDuration d) now)" using assms by (rule any)
  have tp': "terminateProcess ((snd (allowTrigger r (msDuration d) now))\<lparr>lastTriggerReason := ''periodic''\<rparr>)
      = terminateProcess r"
    by (rule terminateProcess_cong) (simp add: allowTrigger_keeps)
  have ws: "writeSnapshot ((snd (allowTrigger r (msDuration d) now))\<lparr>lastTriggerReason := ''periodic''\<rparr>)
      = writeSnapshot (r\<lparr>lastTriggerReason := ''periodic''\<rparr>)"
    by (simp add: writeSnapshot_def snapshotLocked_def allowTrigger_def assms)
  show "snd (periodicTick r d now) =
           writeSnapshot (r\<lparr>lastTriggerReason := ''periodic''\<rparr>) @
           [Log ''INFO'' ''restart_triggered'' [(''reason'', S ''periodic'')]] @
           terminateProcess r"
    unfolding periodicTick_accept[OF c acc'] tp' ws by simp
qed

theorem first_trigger_accepted_witness:
  "lastTrigger (New PolicyOnFailure (NewBackoff 2000 30000 2 0)) = None
   \<and> fst (allowTrigger (New PolicyOnFailure (NewBackoff 2000 30000 2 0)) (3600 * Second) 1)
   \<and> snd (triggerRestart
        ((New PolicyOnFailure (NewBackoff 2000 30000 2 0))\<lparr>sm := StateConnected, cmd := Some 0\<rparr>)
        True ''wake'' 2000 1) =
      [Log ''INFO'' ''restart_triggered'' [(''reason'', S ''wake'')], Signal 0 SIGTERM]"
proof -
  have h: "lastTrigger (New PolicyOnFailure (NewBackoff 2000 30000 2 0)) = None"
    by (simp add: New_def)
  have h': "lastTrigger ((New PolicyOnFailure (NewBackoff 2000 30000 2 0))\<lparr>sm := StateConnected, cmd := Some 0\<rparr>) = None"
    by (simp add: New_def)
  from first_trigger_accepted[OF h, of "3600 * Second" 1]
  have a: "fst (allowTrigger (New PolicyOnFailure (NewBackoff 2000 30000 2 0)) (3600 * Second) 1)"
    by simp
  from first_trigger_accepted[OF h', of _ 1 True "''wake''" 2000]
  have b: "snd (triggerRestart
        ((New PolicyOnFailure (NewBackoff 2000 30000 2 0))\<lparr>sm := StateConnected, cmd := Some 0\<rparr>)
        True ''wake'' 2000 1) =
      [Log ''INFO'' ''restart_triggered'' [(''reason'', S ''wake'')], Signal 0 SIGTERM]"
    by (simp add: New_def writeSnapshot_def terminateProcess_def)
  from h a b show ?thesis by blast
qed

lemma triggerRestart_records_reason:
  "sm r = StateConnected \<Longrightarrow> lastTriggerReason (fst (triggerRestart r lg reason d now)) = reason"
proof -
  assume c: "sm r = StateConnected"
  obtain ok r2 where g: "allowTrigger (r\<lparr>lastTriggerReason := reason\<rparr>) (msDuration d) now = (ok, r2)"
    by (cases "allowTrigger (r\<lparr>lastTriggerReason := reason\<rparr>) (msDuration d) now")
  have "lastTriggerReason (snd (allowTrigger (r\<lparr>lastTriggerReason := reason\<rparr>) (msDuration d) now)) = reason"
    by (simp add: allowTrigger_keeps)
  with g have "lastTriggerReason r2 = reason" by simp
  with c g show ?thesis
    by (simp add: triggerRestart_def setLastTriggerReason_def Let_def)
qed

text \<open>
  C7.  A periodic tick that the gate drops leaves \<open>lastTriggerReason\<close> as it was: the loop
  consults the gate before it records the reason, whereas \<^verbatim>\<open>triggerRestart\<close> records the
  reason first.  Here the supervisor is \<open>Connected\<close>, a \<^verbatim>\<open>network change\<close> trigger was
  accepted at instant 0, and the periodic timer fires 500 ms later with a 2000 ms window.
\<close>

theorem periodic_drop_keeps_old_reason:
  "periodicTick connected_runner 2000 (500 * Millisecond) =
     (connected_runner,
      [Log ''INFO'' ''restart_skipped'' [(''reason'', S ''periodic''), (''detail'', S ''debounced'')]])
   \<and> lastTriggerReason (fst (periodicTick connected_runner 2000 (500 * Millisecond))) = ''network change''
   \<and> lastTriggerReason (fst (triggerRestart connected_runner True ''periodic'' 2000 (500 * Millisecond)))
       = ''periodic''"
proof -
  have p: "periodicTick connected_runner 2000 (500 * Millisecond) =
     (snd (allowTrigger connected_runner (msDuration 2000) (500 * Millisecond)),
      [Log ''INFO'' ''restart_skipped'' [(''reason'', S ''periodic''), (''detail'', S ''debounced'')]])"
    using gate_500 by (intro periodicTick_drop) (simp_all add: connected_runner_simps)
  have u: "snd (allowTrigger connected_runner (msDuration 2000) (500 * Millisecond)) = connected_runner"
    using gate_500 by (rule allowTrigger_rejected_unchanged)
  show ?thesis
    unfolding p u
    by (simp add: connected_runner_simps triggerRestart_records_reason)
qed

section \<open>Verification: network fingerprint\<close>

lemma up_mask: "(n AND FlagUp = 0) = (\<not> bit n 0)" for n :: nat
  by (simp add: FlagUp_def and_one_eq bit_0 mod_2_eq_odd)

lemma loopback_mask:
  "(n AND FlagLoopback = 0) = (\<not> bit n 2)" "(0 < n AND FlagLoopback) = bit n 2" for n :: nat
  using bit_iff_and_push_bit_not_eq_0[of n 2] by (simp_all add: FlagLoopback_def)

lemma collectEntries_concat:
  "collectEntries ifaces acc = acc @ concat (map fingerprint_pairs ifaces)"
proof (induction ifaces arbitrary: acc)
  case Nil
  then show ?case by simp
next
  case (Cons i ifaces)
  show ?case
    by (cases "Addrs i")
      (simp_all add: Cons.IH fingerprint_pairs_def up_mask loopback_mask)
qed

lemma pollLoop_append:
  "pollLoop prev (xs @ ys) = pollLoop prev xs @ pollLoop (prevAfter prev xs) ys"
  by (induction xs arbitrary: prev) (simp_all split: sum.split)

lemma prevAfter_snoc_ok:
  "prevAfter prev (xs @ [Inr i]) = Join (sort (collectEntries i [])) '',''"
  by (induction xs arbitrary: prev) (simp_all add: networkFingerprint_def split: sum.split)

lemma length_pollLoop: "length (pollLoop prev xs) = length xs"
  by (induction xs arbitrary: prev) (simp_all split: sum.split)

text \<open>
  C8.  The fingerprint is the comma-joined, sorted list of the \<^verbatim>\<open><name>|<address>\<close> pairs of
  the interfaces that are up, are no loopback and whose address lookup succeeds (an error of
  \<^verbatim>\<open>net.Interfaces\<close> itself is returned).  Of two consecutive polls that yield fingerprints,
  the second emits the single trigger \<^verbatim>\<open>network change\<close> when the fingerprints differ and
  nothing when they agree.  The interfaces eth0 (up, 10.0.0.2/24), lo (up, loopback) and en1
  (down) give \<^verbatim>\<open>eth0|10.0.0.2/24\<close>.
\<close>

theorem network_fingerprint:
  "(\<exists>es. networkFingerprint (Inr ifaces) = Inr (Join es '','') \<and> sorted es
         \<and> mset es = mset (concat (map fingerprint_pairs ifaces)))
   \<and> networkFingerprint (Inl err) = Inl err
   \<and> map snd (pollLoop prev (before @ [Inr i1, Inr i2] @ rest)) ! Suc (length before) =
        (if networkFingerprint (Inr i2) \<noteq> networkFingerprint (Inr i1)
         then [''network change''] else [])
   \<and> networkFingerprint (Inr
         [\<lparr>Name = ''eth0'', Flags = FlagUp, Addrs = Inr [''10.0.0.2/24'']\<rparr>,
          \<lparr>Name = ''lo'', Flags = FlagUp + FlagLoopback, Addrs = lo_addrs\<rparr>,
          \<lparr>Name = ''en1'', Flags = 0, Addrs = en1_addrs\<rparr>]) = Inr ''eth0|10.0.0.2/24''"
proof (intro conjI)
  show "\<exists>es. networkFingerprint (Inr ifaces) = Inr (Join es '','') \<and> sorted es
         \<and> mset es = mset (concat (map fingerprint_pairs ifaces))"
    by (rule exI[of _ "sort (collectEntries ifaces [])"])
      (simp add: networkFingerprint_def collectEntries_concat)
  show "networkFingerprint (Inl err) = Inl err"
    by (simp add: networkFingerprint_def)
  have split: "before @ [Inr i1, Inr i2] @ rest = (before @ [Inr i1]) @ (Inr i2 # rest)"
    by simp
  have "pollLoop prev (before @ [Inr i1, Inr i2] @ rest) =
      pollLoop prev (before @ [Inr i1]) @
      pollLoop (Join (sort (collectEntries i1 [])) '','') (Inr i2 # rest)"
    unfolding split pollLoop_append prevAfter_snoc_ok ..
  moreover have "length (pollLoop prev (before @ [Inr i1])) = Suc (length before)"
    by (simp add: length_pollLoop)
  ultimately have "map snd (pollLoop prev (before @ [Inr i1, Inr i2] @ rest)) ! Suc (length before) =
      snd (hd (pollLoop (Join (sort (collectEntries i1 [])) '','') (Inr i2 # rest)))"
    by (simp add: nth_append networkFingerprint_def)
  then show "map snd (pollLoop prev (before @ [Inr i1, Inr i2] @ rest)) ! Suc (length before) =
        (if networkFingerprint (Inr i2) \<noteq> networkFingerprint (Inr i1)
         then [''network change''] else [])"
    by (simp add: networkFingerprint_def)
  show "networkFingerprint (Inr
         [\<lparr>Name = ''eth0'', Flags = FlagUp, Addrs = Inr [''10.0.0.2/24'']\<rparr>,
          \<lparr>Name = ''lo'', Flags = FlagUp + FlagLoopback, Addrs = lo_addrs\<rparr>,
          \<lparr>Name = ''en1'', Flags = 0, Addrs = en1_addrs\<rparr>]) = Inr ''eth0|10.0.0.2/24''"
    by (simp add: networkFingerprint_def FlagUp_def FlagLoopback_def)
qed

lemma watcher_scenario:
  "networkWatcher (5 * Second) (Inr [eth0, lo, en1_down])
     [Inr [eth0, lo, en1_down], Inr [eth0, lo, en1_up], Inr [eth0, lo, en1_up]] =
   [([], []),
    ([Log ''INFO'' ''message'' [(''msg'', S ''network change detected'')]], [''network change'']),
    ([], [])]"
  by (simp add: networkWatcher_def networkFingerprint_def eth0_def lo_def en1_down_def en1_up_def
      FlagUp_def FlagLoopback_def Second_def)

section \<open>Verification: supervisor loop\<close>

lemma shouldRestart_terminal:
  "class = ''auth'' \<or> class = ''hostkey'' \<Longrightarrow> \<not> shouldRestart r code err class"
  by (simp add: shouldRestart_def)

lemma quiet_writeSnapshot:
  "\<not> list_ex terminal_exit (writeSnapshot r)" "\<not> list_ex is_Spawn (writeSnapshot r)"
  by (simp_all add: writeSnapshot_def terminal_exit_def is_Spawn_def)

lemma quiet_setters:
  "\<not> list_ex terminal_exit (snd (setLastClass r c))" "\<not> list_ex is_Spawn (snd (setLastClass r c))"
  "\<not> list_ex terminal_exit (snd (recordExit r m))" "\<not> list_ex is_Spawn (snd (recordExit r m))"
  "\<not> list_ex terminal_exit (snd (setLastTriggerReason r m))"
  "\<not> list_ex is_Spawn (snd (setLastTriggerReason r m))"
  by (simp_all add: setLastClass_def recordExit_def setLastTriggerReason_def Let_def
      quiet_writeSnapshot)

lemma quiet_awaitReap:
  "\<not> list_ex terminal_exit (awaitReap c e)" "\<not> list_ex is_Spawn (awaitReap c e)"
  by (simp_all add: awaitReap_def terminal_exit_def is_Spawn_def)

lemma quiet_Stop:
  "\<not> list_ex terminal_exit (fst (snd (Stop r e)))" "\<not> list_ex is_Spawn (fst (snd (Stop r e)))"
  by (simp_all add: Stop_def Let_def quiet_awaitReap terminal_exit_def is_Spawn_def
      split: option.split sum.split)

lemma quiet_terminateProcess:
  "\<not> list_ex terminal_exit (terminateProcess r)"
  by (simp add: terminateProcess_def terminal_exit_def split: option.split)

lemma quiet_Start:
  "\<not> list_ex terminal_exit (fst (snd (Start r e)))"
  by (simp add: Start_def startFailed_def Let_def quiet_awaitReap quiet_terminateProcess
      terminal_exit_def split: option.split sum.split)

lemma quiet_sleepWithBackoff:
  "\<not> list_ex terminal_exit (fst (snd (sleepWithBackoff r e)))"
  "\<not> list_ex is_Spawn (fst (snd (sleepWithBackoff r e)))"
proof -
  obtain delay b' where n: "Next (backoff r) (jitter_sample e) = (delay, b')"
    by (cases "Next (backoff r) (jitter_sample e)")
  let ?r2 = "r\<lparr>backoff := b', stopCh_closed := True\<rparr>"
  obtain r3 a3 x where s: "Stop ?r2 (stop_reaping e) = (r3, a3, x)"
    by (cases "Stop ?r2 (stop_reaping e)")
  have q: "\<not> list_ex terminal_exit a3" "\<not> list_ex is_Spawn a3"
    using quiet_Stop[of ?r2 "stop_reaping e"] s by simp_all
  show "\<not> list_ex terminal_exit (fst (snd (sleepWithBackoff r e)))"
    using n s q by (simp add: sleepWithBackoff_def Let_def terminal_exit_def)
  show "\<not> list_ex is_Spawn (fst (snd (sleepWithBackoff r e)))"
    using n s q by (simp add: sleepWithBackoff_def Let_def is_Spawn_def)
qed

lemma handleExit_terminal:
  assumes "ClassifyExit ext (lastLines 10 (stderr_lines env)) (exitCodeOf (exit_err env)) (exit_err env) = c"
    and "c = ''auth'' \<or> c = ''hostkey''"
  shows "\<exists>r' acts lvl fs.
      handleExit ext r env =
        (r', acts @ [Log lvl ''ssh_exited'' fs,
                     Log ''INFO'' ''restart_policy_stop''
                       [(''policy'', S (PolicyName ext (policy r))), (''class'', S c)]],
         Return None)
      \<and> map_of fs ''class'' = Some (S c)
      \<and> \<not> list_ex is_Spawn acts \<and> \<not> list_ex terminal_exit acts"
proof -
  let ?err = "exit_err env"
  let ?r1 = "r\<lparr>waitErr := ?err, errLines := lastLines 10 (stderr_lines env)\<rparr>"
  let ?r2 = "if ?err \<noteq> WaitNil then recordExitFailure ?r1 else recordExitSuccess ?r1"
  have el: "errLines ?r2 = lastLines 10 (stderr_lines env)"
    by (simp add: recordExitFailure_def recordExitSuccess_def)
  have pol: "policy ?r2 = policy r"
    by (simp add: recordExitFailure_def recordExitSuccess_def)
  have cl: "ClassifyExit ext (errLines ?r2) (exitCodeOf ?err) ?err = c"
    unfolding el by (rule assms(1))
  have nr: "\<not> shouldRestart r'' code err' c" for r'' code err'
    using assms(2) by (rule shouldRestart_terminal)
  show ?thesis
    unfolding handleExit_def Let_def cl
    by (simp add: nr setLastClass_def recordExit_def Let_def quiet_writeSnapshot
        ignoreTransition_def pol recordExitFailure_def recordExitSuccess_def
        split: sum.split)
qed

lemma handleExit_other:
  assumes "ClassifyExit ext (lastLines 10 (stderr_lines env)) (exitCodeOf (exit_err env)) (exit_err env) = c"
    and "c \<noteq> ''auth''" "c \<noteq> ''hostkey''"
  shows "\<not> list_ex terminal_exit (fst (snd (handleExit ext r env)))"
proof -
  let ?err = "exit_err env"
  let ?r1 = "r\<lparr>waitErr := ?err, errLines := lastLines 10 (stderr_lines env)\<rparr>"
  let ?r2 = "if ?err \<noteq> WaitNil then recordExitFailure ?r1 else recordExitSuccess ?r1"
  have el: "errLines ?r2 = lastLines 10 (stderr_lines env)"
    by (simp add: recordExitFailure_def recordExitSuccess_def)
  have cl: "ClassifyExit ext (errLines ?r2) (exitCodeOf ?err) ?err = c"
    unfolding el by (rule assms(1))
  have q: "\<not> list_ex terminal_exit (fst (snd (sleepWithBackoff r'' env)))" for r''
    by (rule quiet_sleepWithBackoff)
  show ?thesis
    unfolding handleExit_def Let_def cl
    using assms(2,3)
    by (simp add: split_beta setLastClass_def recordExit_def Let_def quiet_writeSnapshot
        terminal_exit_def q)
qed

lemma shape_quiet: "\<not> list_ex terminal_exit acts \<Longrightarrow> stops_at_terminal acts b"
  by (simp add: stops_at_terminal_def)

lemma shape_prepend:
  assumes "\<not> list_ex terminal_exit P" "stops_at_terminal acts b"
  shows "stops_at_terminal (P @ acts) b"
proof (cases "list_ex terminal_exit acts")
  case False
  with assms(1) show ?thesis by (simp add: stops_at_terminal_def)
next
  case True
  with assms(2) obtain A x B where d: "acts = A @ x # B" "\<not> list_ex terminal_exit A"
    "terminal_exit x" "\<not> list_ex terminal_exit B" "\<not> list_ex is_Spawn B" "b"
    unfolding stops_at_terminal_def by blast
  have "P @ acts = (P @ A) @ x # B" using d(1) by simp
  moreover have "\<not> list_ex terminal_exit (P @ A)" using assms(1) d(2) by simp
  ultimately show ?thesis unfolding stops_at_terminal_def using d(3-6) by blast
qed

lemma shape_append_quiet:
  assumes "stops_at_terminal acts b" "\<not> list_ex terminal_exit Q" "\<not> list_ex is_Spawn Q"
  shows "stops_at_terminal (acts @ Q) b"
proof (cases "list_ex terminal_exit acts")
  case False
  with assms(2) show ?thesis by (simp add: stops_at_terminal_def)
next
  case True
  with assms(1) obtain A x B where d: "acts = A @ x # B" "\<not> list_ex terminal_exit A"
    "terminal_exit x" "\<not> list_ex terminal_exit B" "\<not> list_ex is_Spawn B" "b"
    unfolding stops_at_terminal_def by blast
  have "acts @ Q = A @ x # (B @ Q)" using d(1) by simp
  moreover have "\<not> list_ex terminal_exit (B @ Q)" "\<not> list_ex is_Spawn (B @ Q)"
    using assms(2,3) d(4,5) by simp_all
  ultimately show ?thesis unfolding stops_at_terminal_def using d(2,3,6) by blast
qed

lemma first_terminal_unique:
  assumes "A @ x # B = pre @ y # post" "\<not> list_ex terminal_exit A" "\<not> list_ex terminal_exit B"
    "terminal_exit y"
  shows "post = B"
  using assms
proof (induction A arbitrary: pre)
  case Nil
  show ?case
  proof (cases pre)
    case Nil
    with Nil.prems(1) show ?thesis by simp
  next
    case (Cons p ps)
    with Nil.prems(1) have "y \<in> set B" by auto
    with Nil.prems(3,4) show ?thesis by (auto simp: list_ex_iff)
  qed
next
  case (Cons a A)
  show ?case
  proof (cases pre)
    case Nil
    with Cons.prems(1) have "y = a" by simp
    with Cons.prems(2,4) show ?thesis by simp
  next
    case (Cons p ps)
    with Cons.prems have e: "A @ x # B = ps @ y # post" and qa: "\<not> list_ex terminal_exit A"
      by simp_all
    show ?thesis by (rule Cons.IH[OF e qa Cons.prems(3,4)])
  qed
qed

lemma shape_decomp:
  assumes "stops_at_terminal acts b" "acts = pre @ y # post" "terminal_exit y"
  shows "b \<and> \<not> list_ex is_Spawn post"
proof -
  have "list_ex terminal_exit acts" using assms(2,3) by (auto simp: list_ex_iff)
  with assms(1) obtain A x B where d: "acts = A @ x # B" "\<not> list_ex terminal_exit A"
    "terminal_exit x" "\<not> list_ex terminal_exit B" "\<not> list_ex is_Spawn B" "b"
    unfolding stops_at_terminal_def by blast
  from d(1) assms(2) have "A @ x # B = pre @ y # post" by simp
  then have "post = B" using d(2,4) assms(3) by (rule first_terminal_unique)
  with d(5,6) show ?thesis by simp
qed

lemma handleExit_shape:
  "stops_at_terminal (fst (snd (handleExit ext r env))) (snd (snd (handleExit ext r env)) = Return None)"
proof -
  let ?c = "ClassifyExit ext (lastLines 10 (stderr_lines env)) (exitCodeOf (exit_err env)) (exit_err env)"
  show ?thesis
  proof (cases "?c = ''auth'' \<or> ?c = ''hostkey''")
    case True
    from handleExit_terminal[OF refl True, of r]
    obtain r' acts lvl fs where h: "handleExit ext r env =
        (r', acts @ [Log lvl ''ssh_exited'' fs,
                     Log ''INFO'' ''restart_policy_stop''
                       [(''policy'', S (PolicyName ext (policy r))), (''class'', S ?c)]],
         Return None)"
      "map_of fs ''class'' = Some (S ?c)" "\<not> list_ex is_Spawn acts" "\<not> list_ex terminal_exit acts"
      by blast
    have t: "terminal_exit (Log lvl ''ssh_exited'' fs)"
      using h(2) True by (auto simp: terminal_exit_def)
    have nt: "\<not> terminal_exit (Log ''INFO'' ''restart_policy_stop''
                       [(''policy'', S (PolicyName ext (policy r))), (''class'', S ?c)])"
      by (simp add: terminal_exit_def)
    have "\<exists>A x B. acts @ [Log lvl ''ssh_exited'' fs,
                     Log ''INFO'' ''restart_policy_stop''
                       [(''policy'', S (PolicyName ext (policy r))), (''class'', S ?c)]] = A @ x # B
        \<and> \<not> list_ex terminal_exit A \<and> terminal_exit x \<and>
         \<not> list_ex terminal_exit B \<and> \<not> list_ex is_Spawn B"
      by (rule exI[of _ acts], rule exI[of _ "Log lvl ''ssh_exited'' fs"],
          rule exI[of _ "[Log ''INFO'' ''restart_policy_stop''
                       [(''policy'', S (PolicyName ext (policy r))), (''class'', S ?c)]]"])
        (simp add: h(4) t nt is_Spawn_def)
    then show ?thesis unfolding stops_at_terminal_def h(1) by simp
  next
    case False
    then have "\<not> list_ex terminal_exit (fst (snd (handleExit ext r env)))"
      by (intro handleExit_other[OF refl]) simp_all
    then show ?thesis by (rule shape_quiet)
  qed
qed

lemma iteration_shape:
  "stops_at_terminal (fst (snd (iteration ext opts r env)))
     (snd (snd (iteration ext opts r env)) = Return None)"
proof -
  let ?r0 = "r\<lparr>stopCh_closed := stopCh_closed r \<or> stop_seen env\<rparr>"
  show ?thesis
  proof (cases "stopCh_closed ?r0")
    case True
    have "\<not> list_ex terminal_exit (fst (snd (iteration ext opts r env)))"
      using True quiet_Stop(1)[of ?r0 "stop_reaping env"]
      by (simp add: iteration_def Let_def split_beta terminal_exit_def)
    then show ?thesis by (rule shape_quiet)
  next
    case False
    obtain r1 a1 eo where st: "Start ?r0 (spawn env) = (r1, a1, eo)"
      by (cases "Start ?r0 (spawn env)")
    have qa1: "\<not> list_ex terminal_exit a1"
      using quiet_Start[of ?r0 "spawn env"] st by simp
    show ?thesis
    proof (cases eo)
      case (Some err)
      have "\<not> list_ex terminal_exit (fst (snd (iteration ext opts r env)))"
        using False st Some qa1
        by (simp add: iteration_def Let_def split_beta quiet_setters quiet_sleepWithBackoff
            terminal_exit_def)
      then show ?thesis by (rule shape_quiet)
    next
      case None
      show ?thesis
      proof (cases "cmd r1 = None \<or> waitDone r1 = None")
        case True
        have "\<not> list_ex terminal_exit (fst (snd (iteration ext opts r env)))"
          using False st None qa1 True
          by (simp add: iteration_def Let_def split_beta quiet_setters terminal_exit_def)
        then show ?thesis by (rule shape_quiet)
      next
        case nm: False
        have it: "iteration ext opts r env =
            (fst (handleExit ext r1 env),
             (a1 @ [Log ''INFO'' ''ssh_started'' [(''summary'', S (Summary opts))]]) @
               fst (snd (handleExit ext r1 env)),
             snd (snd (handleExit ext r1 env)))"
        proof -
          from nm obtain c w where "cmd r1 = Some c" "waitDone r1 = Some w" by auto
          with False st None show ?thesis by (simp add: iteration_def Let_def split_beta)
        qed
        have "\<not> list_ex terminal_exit
            (a1 @ [Log ''INFO'' ''ssh_started'' [(''summary'', S (Summary opts))]])"
          using qa1 by (simp add: terminal_exit_def)
        then have "stops_at_terminal
            ((a1 @ [Log ''INFO'' ''ssh_started'' [(''summary'', S (Summary opts))]]) @
               fst (snd (handleExit ext r1 env)))
            (snd (snd (handleExit ext r1 env)) = Return None)"
          using handleExit_shape by (rule shape_prepend)
        then show ?thesis unfolding it by simp
      qed
    qed
  qed
qed

lemma RunLoop_shape:
  "stops_at_terminal (fst (snd (RunLoop ext opts r envs)))
     (snd (snd (RunLoop ext opts r envs)) = Returned None)"
proof (induction envs arbitrary: r)
  case Nil
  show ?case by (simp add: stops_at_terminal_def)
next
  case (Cons env envs)
  obtain r1 a1 out where it: "iteration ext opts r env = (r1, a1, out)"
    by (cases "iteration ext opts r env")
  have sh: "stops_at_terminal a1 (out = Return None)"
    using iteration_shape[of ext opts r env] it by simp
  show ?case
  proof (cases out)
    case Continue
    with sh have q: "\<not> list_ex terminal_exit a1" by (auto simp: stops_at_terminal_def)
    have "RunLoop ext opts r (env # envs) =
        (fst (RunLoop ext opts r1 envs), a1 @ fst (snd (RunLoop ext opts r1 envs)),
         snd (snd (RunLoop ext opts r1 envs)))"
      using it Continue by (simp add: split_beta)
    moreover have "stops_at_terminal (a1 @ fst (snd (RunLoop ext opts r1 envs)))
        (snd (snd (RunLoop ext opts r1 envs)) = Returned None)"
      using q Cons.IH by (rule shape_prepend)
    ultimately show ?thesis by simp
  next
    case (Return e)
    with it have "RunLoop ext opts r (env # envs) = (r1, a1, Returned e)" by simp
    moreover have "stops_at_terminal a1 (Returned e = Returned None)"
      using sh Return by simp
    ultimately show ?thesis by simp
  qed
qed

lemma not_ssh_exited: "k @ ''_build_info'' \<noteq> ''ssh_exited''"
proof
  assume "k @ ''_build_info'' = ''ssh_exited''"
  then have "last (k @ ''_build_info'') = last ''ssh_exited''" by simp
  then show False by simp
qed

lemma RunWithLogger_shape:
  "stops_at_terminal (fst (snd (RunWithLogger ext opts r envs)))
     (snd (snd (RunWithLogger ext opts r envs)) = Returned None)"
proof -
  let ?intro = "Log ''INFO'' (if Kind opts = [] then ''start'' else Kind opts @ ''_start'')
          [(''summary'', S (Summary opts))] #
        (if BuildInfo opts = [] then []
         else [Log ''INFO'' (if Kind opts = [] then ''build_info'' else Kind opts @ ''_build_info'')
                 (BuildInfo opts)])"
  let ?stop = "[Log ''INFO'' (if Kind opts = [] then ''stop'' else Kind opts @ ''_stop'') []]"
  let ?R = "RunLoop ext opts (r\<lparr>logger := True\<rparr>) envs"
  have qi: "\<not> list_ex terminal_exit ?intro"
    by (simp add: terminal_exit_def not_ssh_exited)
  have qs: "\<not> list_ex terminal_exit ?stop" "\<not> list_ex is_Spawn ?stop"
    by (simp_all add: terminal_exit_def is_Spawn_def)
  have sh: "stops_at_terminal (fst (snd ?R)) (snd (snd ?R) = Returned None)"
    by (rule RunLoop_shape)
  obtain r' acts res where R: "?R = (r', acts, res)" by (cases ?R)
  show ?thesis
  proof (cases res)
    case StillRunning
    then have "RunWithLogger ext opts r envs = (r', ?intro @ acts, StillRunning)"
      using R by (simp add: RunWithLogger_def Let_def)
    moreover have "stops_at_terminal (?intro @ acts) (StillRunning = Returned None)"
      using qi sh R StillRunning shape_prepend[OF qi, of acts "res = Returned None"] by simp
    ultimately show ?thesis by simp
  next
    case (Returned e)
    then have "RunWithLogger ext opts r envs =
        (r'\<lparr>logger := False\<rparr>, ?intro @ acts @ ?stop, Returned e)"
      using R by (simp add: RunWithLogger_def Let_def)
    moreover have "stops_at_terminal (?intro @ acts @ ?stop) (Returned e = Returned None)"
    proof -
      from sh R Returned have "stops_at_terminal acts (Returned e = Returned None)" by simp
      then have "stops_at_terminal (acts @ ?stop) (Returned e = Returned None)"
        using qs by (rule shape_append_quiet)
      with qi show ?thesis by (rule shape_prepend)
    qed
    ultimately show ?thesis by simp
  qed
qed

text \<open>
  C1.  Whatever the restart policy: when the exit of a child is classified \<^verbatim>\<open>auth\<close> or
  \<^verbatim>\<open>hostkey\<close>, the handling of that exit logs the exit, spawns nothing and makes the loop
  return nil; and in every run of \<^verbatim>\<open>RunWithLogger\<close>, on every script of inputs, nothing is
  spawned after the \<^verbatim>\<open>ssh_exited\<close> event of such an exit and the run has returned nil.
\<close>

theorem auth_hostkey_terminal:
  "((ClassifyExit ext (lastLines 10 (stderr_lines env)) (exitCodeOf (exit_err env)) (exit_err env)
       = ''auth''
     \<or> ClassifyExit ext (lastLines 10 (stderr_lines env)) (exitCodeOf (exit_err env)) (exit_err env)
       = ''hostkey'') \<longrightarrow>
      snd (snd (handleExit ext r env)) = Return None
      \<and> list_ex terminal_exit (fst (snd (handleExit ext r env)))
      \<and> \<not> list_ex is_Spawn (fst (snd (handleExit ext r env))))
   \<and> (fst (snd (RunWithLogger ext opts r envs)) = pre @ x # post \<and> terminal_exit x \<longrightarrow>
        snd (snd (RunWithLogger ext opts r envs)) = Returned None
        \<and> \<not> list_ex is_Spawn post)"
proof (intro conjI impI)
  let ?c = "ClassifyExit ext (lastLines 10 (stderr_lines env)) (exitCodeOf (exit_err env)) (exit_err env)"
  assume t: "?c = ''auth'' \<or> ?c = ''hostkey''"
  from handleExit_terminal[OF refl t, of r]
  obtain r' acts lvl fs where h: "handleExit ext r env =
        (r', acts @ [Log lvl ''ssh_exited'' fs,
                     Log ''INFO'' ''restart_policy_stop''
                       [(''policy'', S (PolicyName ext (policy r))), (''class'', S ?c)]],
         Return None)"
      "map_of fs ''class'' = Some (S ?c)" "\<not> list_ex is_Spawn acts" "\<not> list_ex terminal_exit acts"
    by blast
  have te: "terminal_exit (Log lvl ''ssh_exited'' fs)"
    using h(2) t by (auto simp: terminal_exit_def)
  show "snd (snd (handleExit ext r env)) = Return None" unfolding h(1) by simp
  show "list_ex terminal_exit (fst (snd (handleExit ext r env)))"
    unfolding h(1) using te by simp
  show "\<not> list_ex is_Spawn (fst (snd (handleExit ext r env)))"
    unfolding h(1) using h(3) by (simp add: is_Spawn_def)
next
  assume a: "fst (snd (RunWithLogger ext opts r envs)) = pre @ x # post \<and> terminal_exit x"
  then have e: "fst (snd (RunWithLogger ext opts r envs)) = pre @ x # post"
    and t: "terminal_exit x" by simp_all
  have "(snd (snd (RunWithLogger ext opts r envs)) = Returned None) \<and> \<not> list_ex is_Spawn post"
    using RunWithLogger_shape e t by (rule shape_decomp)
  then show "snd (snd (RunWithLogger ext opts r envs)) = Returned None"
    and "\<not> list_ex is_Spawn post" by simp_all
qed

lemma auth_class:
  "ClassifyExit spec_externals (lastLines 10 (stderr_lines auth_failure))
     (exitCodeOf (exit_err auth_failure)) (exit_err auth_failure) = ''auth''"
  by code_simp

lemma three_rounds_trace:
  "fst (snd (RunWithLogger spec_externals agent_opts fresh_runner
       [network_failure, auth_failure, network_failure])) =
     [Log ''INFO'' ''agent_start'' [(''summary'', S ''ubuntu@example.com:22'')],
      Spawn 0, ArmSuccessMark 0,
      Log ''INFO'' ''ssh_started'' [(''summary'', S ''ubuntu@example.com:22'')],
      Log ''ERROR'' ''ssh_exited''
        [(''exit'', S ''exit error (network)''), (''class'', S ''network''),
         (''stderr'', S ''ssh: connect to host example.com port 22: Network is unreachable'')],
      Log ''INFO'' ''restart_scheduled'' [(''delay_ms'', I 2000)],
      Sleep 2000000000, Spawn 1, ArmSuccessMark 1,
      Log ''INFO'' ''ssh_started'' [(''summary'', S ''ubuntu@example.com:22'')]] @
      Log ''ERROR'' ''ssh_exited''
        [(''exit'', S ''exit error (auth)''), (''class'', S ''auth''),
         (''stderr'', S ''Permission denied (publickey).'')] #
     [Log ''INFO'' ''restart_policy_stop'' [(''policy'', S ''always''), (''class'', S ''auth'')],
      Log ''INFO'' ''agent_stop'' []]"
  by code_simp

theorem auth_hostkey_terminal_witness:
  "ClassifyExit spec_externals (lastLines 10 (stderr_lines auth_failure))
     (exitCodeOf (exit_err auth_failure)) (exit_err auth_failure) = ''auth''
   \<and> snd (snd (handleExit spec_externals (fresh_runner\<lparr>policy := PolicyOnFailure\<rparr>) auth_failure))
       = Return None
   \<and> terminal_exit (Log ''ERROR'' ''ssh_exited''
        [(''exit'', S ''exit error (auth)''), (''class'', S ''auth''),
         (''stderr'', S ''Permission denied (publickey).'')])
   \<and> snd (snd (RunWithLogger spec_externals agent_opts fresh_runner
       [network_failure, auth_failure, network_failure])) = Returned None
   \<and> \<not> list_ex is_Spawn
        [Log ''INFO'' ''restart_policy_stop'' [(''policy'', S ''always''), (''class'', S ''auth'')],
         Log ''INFO'' ''agent_stop'' []]"
proof -
  have t: "terminal_exit (Log ''ERROR'' ''ssh_exited''
        [(''exit'', S ''exit error (auth)''), (''class'', S ''auth''),
         (''stderr'', S ''Permission denied (publickey).'')])"
    by (simp add: terminal_exit_def)
  note T1 = auth_hostkey_terminal[where ext = spec_externals and env = auth_failure
      and r = "fresh_runner\<lparr>policy := PolicyOnFailure\<rparr>"]
  note T2 = auth_hostkey_terminal[where ext = spec_externals and opts = agent_opts
      and r = fresh_runner and envs = "[network_failure, auth_failure, network_failure]",
      unfolded three_rounds_trace]
  from T1 auth_class
  have a: "snd (snd (handleExit spec_externals (fresh_runner\<lparr>policy := PolicyOnFailure\<rparr>) auth_failure))
       = Return None"
    by blast
  from T2 t
  have b: "snd (snd (RunWithLogger spec_externals agent_opts fresh_runner
       [network_failure, auth_failure, network_failure])) = Returned None
   \<and> \<not> list_ex is_Spawn
        [Log ''INFO'' ''restart_policy_stop'' [(''policy'', S ''always''), (''class'', S ''auth'')],
         Log ''INFO'' ''agent_stop'' []]"
    by blast
  from auth_class a t b show ?thesis by blast
qed

lemma policy_stop_after_terminal_is_info:
  assumes "ClassifyExit ext (lastLines 10 (stderr_lines env)) (exitCodeOf (exit_err env)) (exit_err env) = c"
    and "c = ''auth'' \<or> c = ''hostkey''"
  shows "Log ''INFO'' ''restart_policy_stop''
           [(''policy'', S (PolicyName ext (policy r))), (''class'', S c)]
           \<in> set (fst (snd (handleExit ext r env)))
       \<and> Log ''ERROR'' ''restart_policy_stop'' fs \<notin> set (fst (snd (handleExit ext r env)))"
proof -
  from handleExit_terminal[OF assms, of r]
  obtain r' acts lvl fs' where h: "handleExit ext r env =
        (r', acts @ [Log lvl ''ssh_exited'' fs',
                     Log ''INFO'' ''restart_policy_stop''
                       [(''policy'', S (PolicyName ext (policy r))), (''class'', S c)]],
         Return None)"
    by blast
  let ?err = "exit_err env"
  let ?r1 = "r\<lparr>waitErr := ?err, errLines := lastLines 10 (stderr_lines env)\<rparr>"
  let ?r2 = "if ?err \<noteq> WaitNil then recordExitFailure ?r1 else recordExitSuccess ?r1"
  have el: "errLines ?r2 = lastLines 10 (stderr_lines env)"
    by (simp add: recordExitFailure_def recordExitSuccess_def)
  have cl: "ClassifyExit ext (errLines ?r2) (exitCodeOf ?err) ?err = c"
    unfolding el by (rule assms(1))
  have nr: "\<not> shouldRestart r'' code err' c" for r'' code err'
    using assms(2) by (rule shouldRestart_terminal)
  have "Log ''ERROR'' ''restart_policy_stop'' fs \<notin> set (fst (snd (handleExit ext r env)))"
    unfolding handleExit_def Let_def cl
    by (simp add: nr setLastClass_def recordExit_def Let_def writeSnapshot_def split_beta)
  moreover have "Log ''INFO'' ''restart_policy_stop''
           [(''policy'', S (PolicyName ext (policy r))), (''class'', S c)]
           \<in> set (fst (snd (handleExit ext r env)))"
    unfolding h by simp
  ultimately show ?thesis by simp
qed

text \<open>
  C9.  An exit classified \<^verbatim>\<open>auth\<close> under the default policy: the only \<^verbatim>\<open>restart_policy_stop\<close>
  event of the run is at level INFO and carries no reason.  \<^verbatim>\<open>shouldRestart\<close> is false for
  the two classes, so the loop returns from its first branch; the branch that logs at level
  ERROR with \<^verbatim>\<open>manual intervention required\<close> lies behind it and is never reached
  (\<open>policy_stop_after_terminal_is_info\<close>, for every input).
\<close>

theorem auth_stop_logged_at_info:
  "fst (snd (RunWithLogger spec_externals agent_opts fresh_runner [auth_failure])) =
     [Log ''INFO'' ''agent_start'' [(''summary'', S ''ubuntu@example.com:22'')],
      Spawn 0, ArmSuccessMark 0,
      Log ''INFO'' ''ssh_started'' [(''summary'', S ''ubuntu@example.com:22'')],
      Log ''ERROR'' ''ssh_exited''
        [(''exit'', S ''exit error (auth)''), (''class'', S ''auth''),
         (''stderr'', S ''Permission denied (publickey).'')],
      Log ''INFO'' ''restart_policy_stop'' [(''policy'', S ''always''), (''class'', S ''auth'')],
      Log ''INFO'' ''agent_stop'' []]
   \<and> snd (snd (RunWithLogger spec_externals agent_opts fresh_runner [auth_failure])) = Returned None"
  by code_simp

section \<open>Verification: success grace\<close>

lemma Start_rejected:
  "sm r \<noteq> StateStopped \<Longrightarrow> Start r env = (r, [], Some (InvalidTransition (sm r) StateConnecting))"
  by (simp add: Start_def Transition_def)

lemma Start_spawn_failed:
  "sm r = StateStopped \<Longrightarrow> spawnError env = Some e \<Longrightarrow>
   Start r env = (recordStartFailure (r\<lparr>sm := StateStopped\<rparr>), [], Some e)"
  by (simp add: Start_def Transition_def startFailed_def ignoreTransition_def)

lemma Start_raced:
  "sm r = StateStopped \<Longrightarrow> spawnError env = None \<Longrightarrow> concurrent_stop env \<Longrightarrow>
   Start r env =
     (r\<lparr>sm := StateStopped, cmd := None, waitDone := None, waitErr := WaitNil, errLines := [],
        allocated := Suc (allocated r)\<rparr>,
      Spawn (allocated r) # Signal (allocated r) SIGTERM # awaitReap (allocated r) (reaping env),
      Some (InvalidTransition StateStopped StateConnected))"
  by (simp add: Start_def Transition_def ignoreTransition_def Let_def terminateProcess_def)

lemma Start_ok:
  "sm r = StateStopped \<Longrightarrow> spawnError env = None \<Longrightarrow> \<not> concurrent_stop env \<Longrightarrow>
   Start r env =
     (recordStartSuccess (r\<lparr>sm := StateConnected, cmd := Some (allocated r),
        waitDone := Some (allocated r), waitErr := WaitNil, errLines := [],
        allocated := Suc (allocated r)\<rparr>),
      [Spawn (allocated r), ArmSuccessMark (allocated r)], None)"
  by (simp add: Start_def Transition_def Let_def recordStartSuccess_def)

lemma Stop_runner:
  "fst (Stop r env) = (if sm r = StateStopped then r else r\<lparr>sm := StateStopped\<rparr>)"
  by (cases "sm r") (simp_all add: Stop_def Transition_def Let_def)





lemma Stop_fields:
  "sm (fst (Stop r env)) = StateStopped"
  "cmd (fst (Stop r env)) = cmd r"
  "allocated (fst (Stop r env)) = allocated r"
  "lastSuccess (fst (Stop r env)) = lastSuccess r"
  by (simp_all add: Stop_runner)








lemma successMark_keeps:
  "cmd (fst (successMark r c now)) = cmd r"
  "sm (fst (successMark r c now)) = sm r"
  "allocated (fst (successMark r c now)) = allocated r"
  by (simp_all add: successMark_def Let_def)




text \<open>
  The history variable is what its name says: it is set exactly while the state machine is
  \<open>Connected\<close>, and a step either keeps it together with \<open>Connected\<close>, or sets it to the
  current instant on entering \<open>Connected\<close>.
\<close>

lemma connectedSince_step:
  assumes "step w e = Some w'" "connectedSince w' = Some t"
  shows "sm (runner w') = StateConnected \<and>
         (connectedSince w = Some t \<and> sm (runner w) = StateConnected
          \<or> sm (runner w) \<noteq> StateConnected \<and> t = clock w)
         \<or> connectedSince w = Some t \<and> sm (runner w') = sm (runner w)"
proof (cases e)
  case (EvTick d)
  with assms show ?thesis by (auto split: if_splits)
next
  case (EvStart env)
  with assms(1) have "connectedSince w' = track w (runner w')"
    by (auto simp: split_beta Let_def)
  with assms(2) show ?thesis by (auto simp: track_def split: if_splits)
next
  case EvExitTransition
  with assms(1) have "connectedSince w' = track w (runner w')"
    by (auto simp: Let_def)
  with assms(2) show ?thesis by (auto simp: track_def split: if_splits)
next
  case EvExitClear
  with assms show ?thesis by auto
next
  case (EvStop env)
  with assms(1) have "connectedSince w' = track w (runner w')"
    by (auto simp: split_beta Let_def)
  with assms(2) show ?thesis by (auto simp: track_def split: if_splits)
next
  case (EvSuccessMark c a)
  with assms(1) have "connectedSince w' = connectedSince w"
    "runner w' = fst (successMark (runner w) c (clock w))"
    by (auto split: if_splits)
  with assms(2) show ?thesis by (simp add: successMark_keeps)
qed

lemma connectedSince_state_step:
  assumes "step w e = Some w'"
    and "(connectedSince w = None) = (sm (runner w) \<noteq> StateConnected)"
  shows "(connectedSince w' = None) = (sm (runner w') \<noteq> StateConnected)"
proof (cases e)
  case (EvTick d)
  with assms show ?thesis by (auto split: if_splits)
next
  case (EvStart env)
  with assms(1) have "connectedSince w' = track w (runner w')"
    by (auto simp: split_beta Let_def)
  with assms(2) show ?thesis by (auto simp: track_def split: if_splits)
next
  case EvExitTransition
  with assms(1) have "connectedSince w' = track w (runner w')"
    by (auto simp: Let_def)
  with assms(2) show ?thesis by (auto simp: track_def split: if_splits)
next
  case EvExitClear
  with assms show ?thesis by auto
next
  case (EvStop env)
  with assms(1) have "connectedSince w' = track w (runner w')"
    by (auto simp: split_beta Let_def)
  with assms(2) show ?thesis by (auto simp: track_def split: if_splits)
next
  case (EvSuccessMark c a)
  with assms(1) have "connectedSince w' = connectedSince w"
    "runner w' = fst (successMark (runner w) c (clock w))"
    by (auto split: if_splits)
  with assms(2) show ?thesis by (simp add: successMark_keeps)
qed

lemma connectedSince_state:
  "run (init_world p b t0) evs = Some w \<Longrightarrow>
   (connectedSince w = None) = (sm (runner w) \<noteq> StateConnected)"
proof -
  have gen: "run w0 evs = Some w \<Longrightarrow>
      (connectedSince w0 = None) = (sm (runner w0) \<noteq> StateConnected) \<Longrightarrow>
      (connectedSince w = None) = (sm (runner w) \<noteq> StateConnected)" for w0
  proof (induction evs arbitrary: w0)
    case Nil
    then show ?case by simp
  next
    case (Cons e es)
    then obtain w1 where s1: "step w0 e = Some w1" and r1: "run w1 es = Some w"
      by (auto split: option.splits)
    from s1 Cons.prems(2) have "(connectedSince w1 = None) = (sm (runner w1) \<noteq> StateConnected)"
      by (rule connectedSince_state_step)
    with r1 show ?case by (rule Cons.IH)
  qed
  assume "run (init_world p b t0) evs = Some w"
  then show ?thesis by (rule gen) (simp add: init_world_def New_def)
qed



section \<open>Verification: rejected spawn and stop sequence\<close>

text \<open>
  C2, as stated, at a spawn whose \<open>Connected\<close> transition is rejected: \<^verbatim>\<open>Start\<close> of
  \<^verbatim>\<open>apps/rpa/internal/supervisor\<close> calls \<^verbatim>\<open>terminateProcess\<close>, which sends SIGTERM; no interrupt
  is sent.
\<close>

theorem start_rejection_sends_sigterm:
  "fst (snd (Start fresh_runner raced_spawn)) =
     [Spawn 0, Signal 0 SIGTERM, AwaitDone 0 (3 * Second) Completed]
   \<and> snd (snd (Start fresh_runner raced_spawn)) =
       Some (InvalidTransition StateStopped StateConnected)
   \<and> Signal 0 Interrupt \<notin> set (fst (snd (Start fresh_runner raced_spawn)))"
  by code_simp

text \<open>
  C2, amended.  Whenever \<^verbatim>\<open>Start\<close> of \<^verbatim>\<open>apps/rpa/internal/supervisor\<close> returns an error after it
  has spawned a child, the error is the rejected \<open>Connected\<close> transition and \<^verbatim>\<open>Start\<close> has sent
  SIGTERM to that child, waited on its completion event for up to 3 s, on a timeout killed it
  and waited up to 1 s more, and cleared the child handle before returning.
\<close>

theorem start_rejection_reaps_child:
  assumes "Start r env = (r', acts, Some e)" and "Spawn c \<in> set acts"
  shows "acts = Spawn c # Signal c SIGTERM #
           (if done_in_3s (reaping env) then [AwaitDone c (3 * Second) Completed]
            else [AwaitDone c (3 * Second) TimedOut, Kill c,
                  AwaitDone c (1 * Second)
                    (if done_in_1s_after_kill (reaping env) then Completed else TimedOut)])
       \<and> e = InvalidTransition StateStopped StateConnected
       \<and> cmd r' = None \<and> waitDone r' = None \<and> sm r' = StateStopped"
proof (cases "sm r = StateStopped")
  case False
  with assms show ?thesis by (simp add: Start_rejected)
next
  case stopped: True
  show ?thesis
  proof (cases "spawnError env")
    case (Some e')
    with stopped assms show ?thesis by (simp add: Start_spawn_failed)
  next
    case None
    show ?thesis
    proof (cases "concurrent_stop env")
      case False
      with stopped None assms show ?thesis by (simp add: Start_ok)
    next
      case True
      with stopped None have "Start r env =
         (r\<lparr>sm := StateStopped, cmd := None, waitDone := None, waitErr := WaitNil, errLines := [],
            allocated := Suc (allocated r)\<rparr>,
          Spawn (allocated r) # Signal (allocated r) SIGTERM # awaitReap (allocated r) (reaping env),
          Some (InvalidTransition StateStopped StateConnected))"
        by (intro Start_raced)
      with assms(1) have r': "r' = r\<lparr>sm := StateStopped, cmd := None, waitDone := None,
            waitErr := WaitNil, errLines := [], allocated := Suc (allocated r)\<rparr>"
        and acts: "acts = Spawn (allocated r) # Signal (allocated r) SIGTERM #
            awaitReap (allocated r) (reaping env)"
        and e: "e = InvalidTransition StateStopped StateConnected"
        by simp_all
      from assms(2) acts have c: "c = allocated r" by (auto simp: awaitReap_def split: if_splits)
      show ?thesis unfolding acts c e r' by (simp add: awaitReap_def)
    qed
  qed
qed

theorem start_rejection_reaps_child_witness:
  "Start fresh_runner stubborn_spawn =
     (fresh_runner\<lparr>allocated := 1\<rparr>,
      [Spawn 0, Signal 0 SIGTERM, AwaitDone 0 (3 * Second) TimedOut, Kill 0,
       AwaitDone 0 (1 * Second) Completed],
      Some (InvalidTransition StateStopped StateConnected))
   \<and> cmd (fresh_runner\<lparr>allocated := 1\<rparr>) = None
   \<and> sm (fresh_runner\<lparr>allocated := 1\<rparr>) = StateStopped"
proof -
  have s: "Start fresh_runner stubborn_spawn =
     (fresh_runner\<lparr>allocated := 1\<rparr>,
      [Spawn 0, Signal 0 SIGTERM, AwaitDone 0 (3 * Second) TimedOut, Kill 0,
       AwaitDone 0 (1 * Second) Completed],
      Some (InvalidTransition StateStopped StateConnected))"
    by code_simp
  have m: "Spawn 0 \<in> set [Spawn 0, Signal 0 SIGTERM, AwaitDone 0 (3 * Second) TimedOut, Kill 0,
       AwaitDone 0 (1 * Second) Completed]"
    by simp
  from start_rejection_reaps_child[OF s m] s show ?thesis by blast
qed

text \<open>
  The older copy returns the rejection at once: the child keeps running, is not signalled
  and stays in \<open>cmd\<close>.
\<close>

lemma Start_legacy_returns_at_once:
  "Start_legacy fresh_runner raced_spawn =
     (fresh_runner\<lparr>cmd := Some 0, allocated := 1\<rparr>, [Spawn 0],
      Some (InvalidTransition StateStopped StateConnected))"
  by code_simp

text \<open>
  \<^verbatim>\<open>Stop\<close> of \<^verbatim>\<open>apps/rpa/internal/supervisor\<close> with a child: interrupt, up to 3 s on the
  completion event of the spawn, then kill and up to 1 s more, then \<open>Stopped\<close>.
\<close>

lemma Stop_follows_sequence:
  assumes "cmd r = Some c" "waitDone r = Some c"
  shows "fst (snd (Stop r env)) =
           Signal c Interrupt #
           (if done_in_3s env then [AwaitDone c (3 * Second) Completed]
            else [AwaitDone c (3 * Second) TimedOut, Kill c,
                  AwaitDone c (1 * Second)
                    (if done_in_1s_after_kill env then Completed else TimedOut)])"
    and "sm (fst (Stop r env)) = StateStopped"
proof -
  show "fst (snd (Stop r env)) =
           Signal c Interrupt #
           (if done_in_3s env then [AwaitDone c (3 * Second) Completed]
            else [AwaitDone c (3 * Second) TimedOut, Kill c,
                  AwaitDone c (1 * Second)
                    (if done_in_1s_after_kill env then Completed else TimedOut)])"
    using assms
    by (cases "Transition (sm r) StateStopped") (simp_all add: Stop_def Let_def awaitReap_def)
  show "sm (fst (Stop r env)) = StateStopped" by (rule Stop_fields(1))
qed

text \<open>
  C3.  \<^verbatim>\<open>Stop\<close> of the older copy \<^verbatim>\<open>internal/supervisor\<close>, with a child that does not exit
  within 3 s of the interrupt: it waits through a \<^verbatim>\<open>cmd.Wait()\<close> of its own instead of the
  completion event, kills the child and moves to \<open>Stopped\<close> without the further wait of 1 s.
  The newer copy, on the same input, waits on the completion event, kills, and waits the
  further second.
\<close>

theorem legacy_stop_skips_final_wait:
  "Stop_legacy connected_runner \<lparr>done_in_3s = False, done_in_1s_after_kill = True\<rparr> =
     (connected_runner\<lparr>sm := StateStopped\<rparr>,
      [Signal 0 Interrupt, AwaitOwnWait 0 (3 * Second) TimedOut, Kill 0], None)
   \<and> Stop connected_runner \<lparr>done_in_3s = False, done_in_1s_after_kill = True\<rparr> =
     (connected_runner\<lparr>sm := StateStopped\<rparr>,
      [Signal 0 Interrupt, AwaitDone 0 (3 * Second) TimedOut, Kill 0,
       AwaitDone 0 (1 * Second) Completed], None)"
  by code_simp

end
